(* ===== verification/Prelude.thy ===== *)
theory Prelude
  imports Main "HOL-Library.Word" "HOL-Library.Sublist"
begin

text \<open>
  Shared vocabulary of the development of the portfolio page \<open>src/app/page.tsx\<close>.
  JavaScript strings are sequences of 16-bit code units (\<open>js_string\<close>); string
  literals of the page are written as Isabelle strings and converted with \<open>js\<close>
  (they are all ASCII, so every character is one code unit). Results that may raise
  a JavaScript exception are values of a sum type, \<open>Inl\<close> carrying the error, and
  \<open>res_bind\<close> threads them the way a thrown exception aborts the rest of a handler.
  The named collections gather the facts the component theories share.
\<close>

named_theorems js_simps "conversion of page literals to code units"
named_theorems res_simps "sequencing of results that may carry an exception"

type_synonym code_unit = "16 word"
type_synonym js_string = "code_unit list"

definition js :: "string \<Rightarrow> js_string" where
  "js s = map (\<lambda>c. of_nat (of_char c)) s"

text \<open>Sequencing of a computation that may throw (\<open>Inl\<close>) with its continuation.\<close>

definition res_bind :: "'e + 'a \<Rightarrow> ('a \<Rightarrow> 'e + 'b) \<Rightarrow> 'e + 'b" where
  "res_bind r f = (case r of Inl e \<Rightarrow> Inl e | Inr a \<Rightarrow> f a)"

text \<open>Prefixing a successful result string (string concatenation after a call that may throw).\<close>

definition res_prepend :: "'a list \<Rightarrow> 'e + 'a list \<Rightarrow> 'e + 'a list" where
  "res_prepend xs r = map_sum id (\<lambda>ys. xs @ ys) r"

lemma js_Nil [simp, js_simps]: "js [] = []"
  by (simp add: js_def)

lemma js_Cons [js_simps]: "js (c # s) = of_nat (of_char c) # js s"
  by (simp add: js_def)

lemma js_append [simp, js_simps]: "js (s @ t) = js s @ js t"
  by (simp add: js_def)

lemma length_js [simp, js_simps]: "length (js s) = length s"
  by (simp add: js_def)

lemma unat_js_char [simp]: "unat (of_nat (of_char c) :: code_unit) = of_char c"
proof -
  have "of_char c < (65536::nat)"
    using nat_of_char_less_256 [of c] by linarith
  then have "of_char c mod (65536::nat) = of_char c" by (rule mod_less)
  then show ?thesis by (simp add: unat_of_nat)
qed

lemma unat_of_nat_code_unit: "n < 65536 \<Longrightarrow> unat (of_nat n :: code_unit) = n"
  by (simp add: unat_of_nat)

lemma mod_add_multiple: "(k * m + x) mod m = x mod (m::nat)"
  by simp

lemma unat_code_unit_bound [simp]: "unat (c :: code_unit) < 65536"
proof -
  have "unat c < 2 ^ LENGTH(16)" by (rule unsigned_less)
  then show ?thesis by simp
qed

lemma js_ascii_bound: "x \<in> set (js s) \<Longrightarrow> unat x < 256"
  by (auto simp add: js_def)

lemma res_bind_Inl [simp, res_simps]: "res_bind (Inl e) f = Inl e"
  by (simp add: res_bind_def)

lemma res_bind_Inr [simp, res_simps]: "res_bind (Inr a) f = f a"
  by (simp add: res_bind_def)

lemma res_prepend_Inl [simp, res_simps]: "res_prepend xs (Inl e) = Inl e"
  by (simp add: res_prepend_def)

lemma res_prepend_Inr [simp, res_simps]: "res_prepend xs (Inr ys) = Inr (xs @ ys)"
  by (simp add: res_prepend_def)

lemma res_prepend_eq_Inr [res_simps]:
  "res_prepend xs r = Inr zs \<longleftrightarrow> (\<exists>ys. r = Inr ys \<and> zs = xs @ ys)"
  by (cases r) auto

lemma res_prepend_eq_Inl [res_simps]:
  "res_prepend xs r = Inl e \<longleftrightarrow> r = Inl e"
  by (cases r) auto

lemma res_bind_eq_Inr [res_simps]:
  "res_bind r f = Inr b \<longleftrightarrow> (\<exists>a. r = Inr a \<and> f a = Inr b)"
  by (cases r) auto

lemma res_prepend_append [simp]: "res_prepend xs (res_prepend ys r) = res_prepend (xs @ ys) r"
  by (cases r) auto

text \<open>Generic list facts used by the matcher and the markup theory.\<close>

lemma sublist_Cons_iff_prefix_or: "sublist xs (y # ys) \<longleftrightarrow> prefix xs (y # ys) \<or> sublist xs ys"
  by (metis sublist_Cons_right)

lemma list_ex_map_conv: "list_ex P (map f xs) = list_ex (\<lambda>x. P (f x)) xs"
  by (induction xs) auto

lemma map_enumerate_snd: "map (\<lambda>x. f (snd x)) (enumerate n xs) = map f xs"
  by (induction xs arbitrary: n) auto

lemma enumerate_map: "enumerate n (map f xs) = map (\<lambda>(i, x). (i, f x)) (enumerate n xs)"
  by (induction xs arbitrary: n) auto

lemma map_filter_map_option: "(\<And>x. g (h x) = map_option f (k x)) \<Longrightarrow> List.map_filter g (map h xs) = map f (List.map_filter k xs)"
  by (induction xs) (auto simp add: List.map_filter_simps split: option.splits)

lemma map_filter_map_eq: "(\<And>x. g (h x) = k x) \<Longrightarrow> List.map_filter g (map h xs) = List.map_filter k xs"
  by (induction xs) (auto simp add: List.map_filter_simps split: option.splits)

lemma concat_map_Nil [simp]: "concat (map (\<lambda>x. []) xs) = []"
  by (induction xs) simp_all

lemma concat_map_cong_eq:
  "(\<And>x. x \<in> set xs \<Longrightarrow> f x = g x) \<Longrightarrow> concat (map f xs) = concat (map g xs)"
  by (induction xs) auto

end
