(* ===== verification/Content.thy ===== *)
theory Content
  imports Prelude
begin

text \<open>
  The content data of \<open>src/app/page.tsx\<close>: the four item interfaces (lines 24--50) as
  records, with TypeScript's optional fields (\<open>date?\<close>, \<open>details?\<close>, ...) as
  \<open>option\<close>s, and the literal arrays built inside \<open>Page\<close> (lines 186--276). The
  fields shared by several interfaces (\<open>title\<close>) are read with the record's name as
  qualifier, e.g. \<open>ProjectItem.title\<close>.
\<close>

record ProjectItem =
  title :: string
  description :: string
  details :: string
  sourceUrl :: string

record EducationItem =
  institution :: string
  degree :: string
  duration :: string

record AchievementItem =
  title :: string
  event :: string
  date :: string

record CertificateItem =
  title :: string
  organization :: string
  date :: "string option"
  details :: "string option"
  link :: "string option"
  image :: "string option"

definition projectsData :: "ProjectItem list" where
  "projectsData = [
    \<lparr>ProjectItem.title = ''AFK Monitoring System'',
     description = ''Developed a system to monitor idle time on a computer and shut it down if idle time exceeds the allowed limit.'',
     ProjectItem.details = ''Implemented using Python with the pyautogui library for detecting user activity. Features include customizable idle time thresholds, warning notifications, and automatic shutdown procedures.'',
     sourceUrl = ''https://github.com/i-am-smf/afk-monitering-sytem''\<rparr>,
    \<lparr>ProjectItem.title = ''Secure Chat API'',
     description = ''Developed a Secure Chat API with end-to-end encryption and Blockchain-based authentication to ensure secure communication.'',
     ProjectItem.details = ''The project involved translating design specifications into a fully functional system, integrating Fernet encryption for secure message transmission and smart contracts for automated user verification. Technologies: Python (Tkinter, Threading, Socket), Blockchain Authentication, Smart Contracts, Fernet Encryption. The implementation focused on code quality, efficiency, and maintainability, following best practices in software development. System Requirements: 4GB RAM, Windows (8/10/11), Linux, Ubuntu.'',
     sourceUrl = ''https://github.com/i-am-smf/Secure-Chat-using-Blockchain''\<rparr>,
    \<lparr>ProjectItem.title = ''Infinity Developer Discord Bot'',
     description = ''Developed a fully automated bot to manage guild channels, duties, and settings on Discord.'',
     ProjectItem.details = ''Utilized discord.py library with advanced features like role management, custom commands, and integration with external APIs for enhanced functionality. Implements efficient caching and database management for scalability.'',
     sourceUrl = ''https://github.com/infinity-developers/Infinity-Developer-Discord-Bot''\<rparr>]"

text \<open>
  The source writes the en dash U+2013 in the durations; it is one UTF-16 code unit,
  which the model writes as the three-byte UTF-8 sequence of Isabelle's 8-bit
  characters (the durations are data that no part of the page inspects).
\<close>

definition en_dash :: string where
  "en_dash = [CHR 0xE2, CHR 0x80, CHR 0x93]"

definition educationData :: "EducationItem list" where
  "educationData = [
    \<lparr>institution = ''M.I.E.T. Engineering College'', degree = ''B.E. Computer Science'',
     duration = ''Jun 2020 '' @ en_dash @ '' Apr 2024''\<rparr>,
    \<lparr>institution = ''Sairam Matric Hr. Sec. School'', degree = ''12th Grade'',
     duration = ''Jun 2019 '' @ en_dash @ '' Mar 2020''\<rparr>]"

definition achievementsData :: "AchievementItem list" where
  "achievementsData = [
    \<lparr>AchievementItem.title = ''1st Place - Miniathon Event'',
     event = ''Arcane 2K23 National Level Technical Symposium'',
     AchievementItem.date = ''September 13, 2023''\<rparr>,
    \<lparr>AchievementItem.title = ''1st Prize - Code Battle Event'',
     event = ''Technoholix'23, National Level Technical Symposium'',
     AchievementItem.date = ''February 17, 2023''\<rparr>,
    \<lparr>AchievementItem.title = ''2nd Place - Zoom in Zoom out Event'',
     event = ''Analytiixfest2k23 State Level Technical Symposium'',
     AchievementItem.date = ''February 2, 2023''\<rparr>,
    \<lparr>AchievementItem.title = ''3rd Place - TechVein Event'',
     event = ''TechQuest'23, National Level Technical Symposium'',
     AchievementItem.date = ''September 15, 2023''\<rparr>]"

definition certificatesData :: "CertificateItem list" where
  "certificatesData = [
    \<lparr>CertificateItem.title = ''.NET using C# language'', organization = ''Ameya Cloud'',
     CertificateItem.date = Some (''May 24, 2022 '' @ en_dash @ '' Jun 1, 2022''),
     CertificateItem.details = Some ''Learned to create applications using .NET with Microsoft Visual Studio.'',
     link = Some ''https://ameyacloud.com'',
     image = Some ''https://hebbkx1anhila5yf.public.blob.vercel-storage.com/1739869980871.jpg-YL0g3FWZTgDJSYXYOiXvjZSS20wjCu.jpeg''\<rparr>,
    \<lparr>CertificateItem.title = ''RDBMS using MySQL'', organization = ''GFS India'',
     CertificateItem.date = Some (''Sep 19, 2022 '' @ en_dash @ '' Sep 26, 2022''),
     CertificateItem.details = Some ''Gained hands-on experience with SQL queries.'',
     link = Some ''https://gfsindia.com'',
     image = Some ''https://hebbkx1anhila5yf.public.blob.vercel-storage.com/1739869980885.jpg-zcQSO1Q3nHVkI7BWhLuYjXurBff2KI.jpeg''\<rparr>,
    \<lparr>CertificateItem.title = ''DevOps on AWS'', organization = ''M.I.E.T. Engineering College'',
     CertificateItem.date = Some (''Mar 20, 2023 '' @ en_dash @ '' Mar 29, 2023''),
     CertificateItem.details = Some ''Practiced various Git commands and DevOps tools on AWS.'',
     link = Some ''https://miet.edu'',
     image = Some ''https://hebbkx1anhila5yf.public.blob.vercel-storage.com/1739869980877.jpg-1OUDvkvP01abfrC8Af9vKKSLDFFM9b.jpeg''\<rparr>]"

end
