(* ===== verification/Markup.thy ===== *)
theory Markup
  imports Prelude
begin

text \<open>
  The rendered output of the page's components: a JSX element tree. An element has a
  tag (an HTML tag such as \<open>div\<close>, or a library component such as \<open>Card\<close>,
  \<open>Button\<close>, \<open>Link\<close>, \<open>motion.div\<close>), its props and its children; text children are
  leaves. Props that only select CSS (\<open>className\<close>) are not kept; the UI library's \<open>variant\<close> and
  \<open>size\<close> are. Event props carry the value of
  the handler closure, of a type \<open>'h\<close> chosen by the component that renders the tree,
  so that firing an event is reading the prop. framer-motion props are kept as the
  animation targets they state (\<open>initial\<close>, \<open>animate\<close>, \<open>whileInView\<close>, the
  transition's duration in milliseconds).
\<close>

datatype height = HeightAuto | HeightPx nat

datatype motion_prop = Opacity nat | Height height | OffsetY int

datatype 'h attr =
    Href string | Target string | Rel string | Variant string | Size string
  | AriaLabel string | Key nat | Src string | Alt string
  | Initial "motion_prop list" | Animate "motion_prop list" | WhileInView "motion_prop list"
  | TransitionMs nat
  | OnMouseEnter 'h | OnMouseLeave 'h | OnClick 'h

text \<open>
  \<open>Arr cs\<close> is a child that is an array, the value of a JSX expression such as
  \<open>{items.map(...)}\<close>; React puts its elements among the parent's children, but
  requires a \<open>key\<close> on each element of it.
\<close>

datatype 'h node = Text string | Elem string "'h attr list" "'h node list" | Arr "'h node list"

subsection \<open>Reading a tree\<close>

text \<open>The text content of a tree, in document order (what the DOM holds).\<close>

fun texts :: "'h node \<Rightarrow> string list" where
  "texts (Text s) = [s]"
| "texts (Elem tag as cs) = concat (map texts cs)"
| "texts (Arr cs) = concat (map texts cs)"

text \<open>
  An element is transparent once its animation has settled when the \<open>animate\<close> target
  sets the opacity to 0; nothing inside it is visible.
\<close>

definition transparent :: "'h attr list \<Rightarrow> bool" where
  "transparent as \<longleftrightarrow> list_ex (\<lambda>a. case a of Animate ps \<Rightarrow> Opacity 0 \<in> set ps | _ \<Rightarrow> False) as"

text \<open>The text that is visible once every animation has settled.\<close>

fun visible_texts :: "'h node \<Rightarrow> string list" where
  "visible_texts (Text s) = [s]"
| "visible_texts (Elem tag as cs) = (if transparent as then [] else concat (map visible_texts cs))"
| "visible_texts (Arr cs) = concat (map visible_texts cs)"

text \<open>The \<open>key\<close> prop of a node, if it has one.\<close>

fun attr_key :: "'h attr \<Rightarrow> nat option" where
  "attr_key (Key k) = Some k"
| "attr_key _ = None"

fun node_key :: "'h node \<Rightarrow> nat option" where
  "node_key (Text s) = None"
| "node_key (Elem tag as cs) = (case List.map_filter attr_key as of [] \<Rightarrow> None | k # _ \<Rightarrow> Some k)"
| "node_key (Arr cs) = None"

text \<open>An element of an array child must carry a key; text and nested arrays need none.\<close>

fun keyed :: "'h node \<Rightarrow> bool" where
  "keyed (Elem tag as cs) = (node_key (Elem tag as cs) \<noteq> None)"
| "keyed _ = True"

text \<open>
  React's key rule, in every part of the tree: every element of an array child has a
  key, and the keys given to siblings are distinct.
\<close>

fun wf_keys :: "'h node \<Rightarrow> bool" where
  "wf_keys (Text s) = True"
| "wf_keys (Elem tag as cs) = (distinct (List.map_filter node_key cs) \<and> list_all wf_keys cs)"
| "wf_keys (Arr cs) = (list_all keyed cs \<and> distinct (List.map_filter node_key cs) \<and> list_all wf_keys cs)"

text \<open>The handler values of one event prop on the root element of a tree.\<close>

fun attr_enter :: "'h attr \<Rightarrow> 'h option" where
  "attr_enter (OnMouseEnter h) = Some h"
| "attr_enter _ = None"

fun attr_leave :: "'h attr \<Rightarrow> 'h option" where
  "attr_leave (OnMouseLeave h) = Some h"
| "attr_leave _ = None"

fun attr_click :: "'h attr \<Rightarrow> 'h option" where
  "attr_click (OnClick h) = Some h"
| "attr_click _ = None"

fun root_handlers :: "('h attr \<Rightarrow> 'h option) \<Rightarrow> 'h node \<Rightarrow> 'h list" where
  "root_handlers sel (Text s) = []"
| "root_handlers sel (Elem tag as cs) = List.map_filter sel as"
| "root_handlers sel (Arr cs) = []"

text \<open>All handler values of one event prop anywhere in a tree, in document order.\<close>

fun all_handlers :: "('h attr \<Rightarrow> 'h option) \<Rightarrow> 'h node \<Rightarrow> 'h list" where
  "all_handlers sel (Text s) = []"
| "all_handlers sel (Elem tag as cs) = List.map_filter sel as @ concat (map (all_handlers sel) cs)"
| "all_handlers sel (Arr cs) = concat (map (all_handlers sel) cs)"

text \<open>The \<open>Link\<close> elements of a tree with their \<open>href\<close>, \<open>target\<close> and \<open>rel\<close> props.\<close>

fun attr_href :: "'h attr \<Rightarrow> string option" where
  "attr_href (Href u) = Some u"
| "attr_href _ = None"

fun attr_target :: "'h attr \<Rightarrow> string option" where
  "attr_target (Target t) = Some t"
| "attr_target _ = None"

fun attr_rel :: "'h attr \<Rightarrow> string option" where
  "attr_rel (Rel r) = Some r"
| "attr_rel _ = None"

definition first_of :: "('a \<Rightarrow> 'b option) \<Rightarrow> 'a list \<Rightarrow> 'b option" where
  "first_of f xs = (case List.map_filter f xs of [] \<Rightarrow> None | y # _ \<Rightarrow> Some y)"

text \<open>All subtrees of a tree, the tree itself first, in document order.\<close>

fun subtrees :: "'h node \<Rightarrow> 'h node list" where
  "subtrees (Text s) = [Text s]"
| "subtrees (Elem tag as cs) = Elem tag as cs # concat (map subtrees cs)"
| "subtrees (Arr cs) = Arr cs # concat (map subtrees cs)"

fun links :: "'h node \<Rightarrow> (string option \<times> string option \<times> string option) list" where
  "links (Text s) = []"
| "links (Elem tag as cs) =
     (if tag = ''Link'' then [(first_of attr_href as, first_of attr_target as, first_of attr_rel as)] else [])
     @ concat (map links cs)"
| "links (Arr cs) = concat (map links cs)"

subsection \<open>Reading lemmas\<close>

lemma transparent_simps [simp]:
  "\<not> transparent []"
  "transparent (a # as) \<longleftrightarrow> (case a of Animate ps \<Rightarrow> Opacity 0 \<in> set ps | _ \<Rightarrow> False) \<or> transparent as"
  by (simp_all add: transparent_def)

text \<open>Tagging the handler values of a tree (\<open>map_node\<close>) changes nothing that is read off it.\<close>

lemma transparent_map [simp]: "transparent (map (map_attr f) as) = transparent as"
  by (induction as) (simp_all split: attr.splits)

lemma visible_texts_map_node [simp]: "visible_texts (map_node f n) = visible_texts n"
  by (induction n) (simp_all cong: map_cong)

lemma attr_click_map [simp]: "attr_click (map_attr f a) = map_option f (attr_click a)"
  by (cases a) simp_all

lemma all_handlers_click_map_node:
  "all_handlers attr_click (map_node f n) = map f (all_handlers attr_click n)"
proof (induction n)
  case (Text s) then show ?case by simp
next
  case (Elem tag as cs)
  then show ?case by (simp add: map_filter_map_option [of attr_click "map_attr f" f attr_click] map_concat cong: map_cong)
next
  case (Arr cs)
  then show ?case by (simp add: map_concat cong: map_cong)
qed

lemma attr_key_map [simp]: "attr_key (map_attr f a) = attr_key a"
  by (cases a) simp_all

lemma node_key_map [simp]: "node_key (map_node f n) = node_key n"
  by (cases n) (simp_all add: map_filter_map_eq [of attr_key "map_attr f" attr_key])


lemma keyed_map_node [simp]: "keyed (map_node f n) = keyed n"
  by (cases n) (simp_all add: map_filter_map_eq [of attr_key "map_attr f" attr_key])

lemma wf_keys_map_node [simp]: "wf_keys (map_node f n) = wf_keys n"
proof (induction n)
  case (Text s) then show ?case by simp
next
  case (Elem tag as cs)
  then show ?case by (simp add: map_filter_map_eq [of node_key "map_node f" node_key] list_all_iff)
next
  case (Arr cs)
  then show ?case by (simp add: map_filter_map_eq [of node_key "map_node f" node_key] list_all_iff)
qed

lemma first_of_simps [simp]:
  "first_of f [] = None"
  "first_of f (x # xs) = (case f x of Some y \<Rightarrow> Some y | None \<Rightarrow> first_of f xs)"
  by (simp_all add: first_of_def List.map_filter_simps split: option.splits)

lemma first_of_map: "first_of g (map h xs) = first_of (g o h) xs"
  by (induction xs) (simp_all split: option.splits)

lemma attr_link_props_map [simp]:
  "attr_href o map_attr f = attr_href" "attr_target o map_attr f = attr_target" "attr_rel o map_attr f = attr_rel"
  by (simp_all add: fun_eq_iff; intro allI; case_tac x; simp)+

lemma links_map_node [simp]: "links (map_node f n) = links n"
  by (induction n) (simp_all add: first_of_map cong: map_cong)

subsection \<open>Keys of a rendered list\<close>

text \<open>
  The rows of \<open>items.map((item, index) => <t key={index}>...)\<close> are all keyed and carry the
  keys 0, 1, ...
\<close>

lemma keyed_rows: "list_all keyed (map (\<lambda>(i, x). Elem t [Key i] (g i x)) xs)"
  by (induction xs) (auto simp add: List.map_filter_simps)

lemma keys_rows:
  "List.map_filter node_key (map (\<lambda>(i, x). Elem t [Key i] (g i x)) (enumerate n xs)) = [n..<n + length xs]"
proof (induction xs arbitrary: n)
  case Nil
  then show ?case by (simp add: List.map_filter_def)
next
  case (Cons x xs)
  then show ?case by (simp add: List.map_filter_simps upt_rec)
qed

end
