(* ===== verification/Cards.thy ===== *)
theory Cards
  imports Content Markup
begin

text \<open>
  The four card components of \<open>src/app/page.tsx\<close>: \<open>ProjectCard\<close> (lines 52--87),
  \<open>EducationCard\<close> (89--119), \<open>AchievementCard\<close> (121--151) and \<open>CertificateCard\<close>
  (153--183). Each keeps one piece of React state, \<open>isHovered\<close>, created by
  \<open>useState(false)\<close>; its root \<open>Card\<close> element carries the closures
  \<open>() => setIsHovered(true)\<close> and \<open>() => setIsHovered(false)\<close> as \<open>onMouseEnter\<close> and
  \<open>onMouseLeave\<close>, modelled as the values \<open>SetHovered True\<close> and \<open>SetHovered False\<close>.
  A component is its render function from the props and the state to the element tree.
  The parts the four components share verbatim are written once: the hover card around
  the content (lines 56--61 and 84--85) and the animated detail panel (lines 64--69).
\<close>

datatype hover_msg = SetHovered bool

definition hoverCard :: "hover_msg node list \<Rightarrow> hover_msg node" where
  "hoverCard content =
     Elem ''Card'' [OnMouseEnter (SetHovered True), OnMouseLeave (SetHovered False)]
       [Elem ''CardContent'' [] content]"

definition detailPanel :: "bool \<Rightarrow> hover_msg node list \<Rightarrow> hover_msg node" where
  "detailPanel isHovered children =
     Elem ''motion.div''
       [Initial [Opacity 0, Height (HeightPx 0)],
        Animate [Opacity (if isHovered then 1 else 0), Height (if isHovered then HeightAuto else HeightPx 0)],
        TransitionMs 300]
       children"

definition ProjectCard :: "ProjectItem \<Rightarrow> bool \<Rightarrow> hover_msg node" where
  "ProjectCard p isHovered = hoverCard
     [Elem ''h3'' [] [Text (ProjectItem.title p)],
      Elem ''p'' [] [Text (description p)],
      detailPanel isHovered [Elem ''p'' [] [Text (ProjectItem.details p)]],
      Elem ''motion.div''
        [Initial [Opacity 0, OffsetY 20],
         Animate [Opacity (if isHovered then 1 else 0), OffsetY (if isHovered then 0 else 20)],
         TransitionMs 300]
        [Elem ''Link'' [Href (sourceUrl p), Target ''_blank'', Rel ''noopener noreferrer'']
          [Elem ''Button'' [Variant ''outline''] [Text ''View Source'']]]]"

definition EducationCard :: "EducationItem list \<Rightarrow> bool \<Rightarrow> hover_msg node" where
  "EducationCard items isHovered = hoverCard
     [Elem ''h3'' [] [Text ''View Education Details''],
      detailPanel isHovered
        [Arr (map (\<lambda>(index, item). Elem ''div'' [Key index]
               [Elem ''p'' [] [Text (institution item)], Elem ''p'' [] [Text (degree item)]])
          (enumerate 0 items))],
      Elem ''Link'' [Href ''/education''] [Elem ''Button'' [] [Text ''Go to Education Page'']]]"

definition AchievementCard :: "AchievementItem list \<Rightarrow> bool \<Rightarrow> hover_msg node" where
  "AchievementCard items isHovered = hoverCard
     [Elem ''h3'' [] [Text ''View Achievements''],
      detailPanel isHovered
        [Arr (map (\<lambda>(index, item). Elem ''div'' [Key index]
               [Elem ''p'' [] [Text (AchievementItem.title item)], Elem ''p'' [] [Text (event item)]])
          (enumerate 0 items))],
      Elem ''Link'' [Href ''/achievements''] [Elem ''Button'' [] [Text ''Go to Achievements Page'']]]"

definition CertificateCard :: "CertificateItem list \<Rightarrow> bool \<Rightarrow> hover_msg node" where
  "CertificateCard items isHovered = hoverCard
     [Elem ''h3'' [] [Text ''View Certificates''],
      detailPanel isHovered
        [Arr (map (\<lambda>(index, item). Elem ''div'' [Key index]
               [Elem ''p'' [] [Text (CertificateItem.title item)], Elem ''p'' [] [Text (organization item)]])
          (enumerate 0 items))],
      Elem ''Link'' [Href ''/certificates''] [Elem ''Button'' [] [Text ''Go to Certificates Page'']]]"

subsection \<open>State and events\<close>

text \<open>
  \<open>setIsHovered(v)\<close> replaces the state by \<open>v\<close>. React may batch the updates of
  several events before it renders again; since every update is a constant, the state
  after a batch is the last one either way.
\<close>

fun setIsHovered :: "hover_msg \<Rightarrow> bool \<Rightarrow> bool" where
  "setIsHovered (SetHovered v) s = v"

datatype mouse_event = MouseEnter | MouseLeave

text \<open>
  Firing a pointer event at a mounted card: the handler props of the root element of the
  tree rendered from the current state are called, each applying its state update.
\<close>

definition fire :: "mouse_event \<Rightarrow> 'h node \<Rightarrow> 'h list" where
  "fire ev n = (case ev of MouseEnter \<Rightarrow> root_handlers attr_enter n | MouseLeave \<Rightarrow> root_handlers attr_leave n)"

definition card_event :: "(bool \<Rightarrow> hover_msg node) \<Rightarrow> mouse_event \<Rightarrow> bool \<Rightarrow> bool" where
  "card_event render ev s = fold setIsHovered (fire ev (render s)) s"

fun card_run :: "(bool \<Rightarrow> hover_msg node) \<Rightarrow> mouse_event list \<Rightarrow> bool \<Rightarrow> bool" where
  "card_run render [] s = s"
| "card_run render (ev # evs) s = card_run render evs (card_event render ev s)"

text \<open>The state a card is mounted with, \<open>useState(false)\<close>.\<close>

definition card_init :: bool where
  "card_init = False"

subsection \<open>Events reach the state through the rendered tree\<close>

lemma fire_hoverCard:
  "fire ev (hoverCard content) = [SetHovered (ev = MouseEnter)]"
  by (cases ev) (simp_all add: fire_def hoverCard_def List.map_filter_def)

lemma card_event_hoverCard:
  "(\<And>s. render s = hoverCard (content s)) \<Longrightarrow> card_event render ev s \<longleftrightarrow> ev = MouseEnter"
  by (simp add: card_event_def fire_hoverCard)

lemma card_run_hoverCard:
  "(\<And>s. render s = hoverCard (content s)) \<Longrightarrow>
   card_run render evs s = (if evs = [] then s else last evs = MouseEnter)"
proof (induction evs arbitrary: s)
  case Nil
  then show ?case by simp
next
  case (Cons ev evs)
  show ?case
    using Cons.IH [OF Cons.prems, of "card_event render ev s"] card_event_hoverCard [OF Cons.prems]
    by simp
qed

text \<open>
  C3: for each of the four cards, mounted with \<open>isHovered = false\<close> and sent a sequence
  of pointer events through the handlers of its rendered tree, the card is expanded
  exactly when there was an event and the last one was \<open>mouseenter\<close>; in particular
  repeated \<open>mouseenter\<close> (or \<open>mouseleave\<close>) events leave it expanded (collapsed).
\<close>

theorem card_run_last_event:
  "(card_run (ProjectCard p) evs card_init \<longleftrightarrow> evs \<noteq> [] \<and> last evs = MouseEnter) \<and>
   (card_run (EducationCard es) evs card_init \<longleftrightarrow> evs \<noteq> [] \<and> last evs = MouseEnter) \<and>
   (card_run (AchievementCard as) evs card_init \<longleftrightarrow> evs \<noteq> [] \<and> last evs = MouseEnter) \<and>
   (card_run (CertificateCard cs) evs card_init \<longleftrightarrow> evs \<noteq> [] \<and> last evs = MouseEnter)"
  by (simp add: card_run_hoverCard ProjectCard_def EducationCard_def AchievementCard_def
      CertificateCard_def card_init_def)

subsection \<open>What a card shows\<close>

lemma cards_no_click [simp]:
  "all_handlers attr_click (ProjectCard p h) = []"
  "all_handlers attr_click (EducationCard es h) = []"
  "all_handlers attr_click (AchievementCard as h) = []"
  "all_handlers attr_click (CertificateCard cs h) = []"
  by (simp_all add: ProjectCard_def EducationCard_def AchievementCard_def CertificateCard_def
      hoverCard_def detailPanel_def List.map_filter_simps split_def)

lemma cards_wf_keys [simp]:
  "wf_keys (ProjectCard p h)" "wf_keys (EducationCard es h)" "wf_keys (AchievementCard as h)"
  "wf_keys (CertificateCard cs h)"
  by (auto simp add: ProjectCard_def EducationCard_def AchievementCard_def CertificateCard_def
      hoverCard_def detailPanel_def List.map_filter_simps keys_rows list_all_iff)


lemma visible_detailPanel [simp]:
  "visible_texts (detailPanel h cs) = (if h then concat (map visible_texts cs) else [])"
  by (simp add: detailPanel_def)

lemma texts_detailPanel [simp]: "texts (detailPanel h cs) = concat (map texts cs)"
  by (simp add: detailPanel_def)

text \<open>
  C11: once its animations have settled, a project card shows its title and
  description, and its details and the \<open>View Source\<close> button exactly when it is
  expanded.
\<close>

theorem ProjectCard_visible_texts:
  "visible_texts (ProjectCard p h) =
     [ProjectItem.title p, description p] @ (if h then [ProjectItem.details p, ''View Source''] else [])"
  by (simp add: ProjectCard_def hoverCard_def)

text \<open>
  C12: once its animations have settled, each list card shows its heading and its
  call-to-action button in every state and for every list, the empty list included,
  and between them the two lines of every item, in list order, exactly when it is
  expanded.
\<close>

theorem list_cards_visible_texts:
  "visible_texts (EducationCard es h) = ''View Education Details'' #
     (if h then concat (map (\<lambda>e. [institution e, degree e]) es) else []) @ [''Go to Education Page''] \<and>
   visible_texts (AchievementCard as h) = ''View Achievements'' #
     (if h then concat (map (\<lambda>a. [AchievementItem.title a, event a]) as) else []) @ [''Go to Achievements Page''] \<and>
   visible_texts (CertificateCard cs h) = ''View Certificates'' #
     (if h then concat (map (\<lambda>c. [CertificateItem.title c, organization c]) cs) else []) @ [''Go to Certificates Page'']"
  by (simp add: EducationCard_def AchievementCard_def CertificateCard_def hoverCard_def split_def o_def
      map_enumerate_snd [of "\<lambda>e. [institution e, degree e]"]
      map_enumerate_snd [of "\<lambda>a. [AchievementItem.title a, event a]"]
      map_enumerate_snd [of "\<lambda>c. [CertificateItem.title c, organization c]"])

text \<open>
  C17: the text a project card puts in the document is the same whether it is
  collapsed or expanded: the details and the \<open>View Source\<close> link are rendered while
  collapsed, only at opacity 0 (so they stay in the accessibility tree and the link
  stays focusable).
\<close>

theorem ProjectCard_texts:
  "texts (ProjectCard p h) = [ProjectItem.title p, description p, ProjectItem.details p, ''View Source'']"
  by (simp add: ProjectCard_def hoverCard_def)

text \<open>
  C18: the list cards do not read the fields they do not render: an education
  card ignores \<open>duration\<close>, an achievement card ignores \<open>date\<close>, and a certificate
  card ignores all four optional fields, present or absent.
\<close>

theorem cards_ignore_unrendered_fields:
  "EducationCard es h = EducationCard (map (\<lambda>e. e\<lparr>duration := []\<rparr>) es) h \<and>
   AchievementCard as h = AchievementCard (map (\<lambda>a. a\<lparr>AchievementItem.date := []\<rparr>) as) h \<and>
   CertificateCard cs h = CertificateCard (map (\<lambda>c. c\<lparr>CertificateItem.date := None, CertificateItem.details := None,
                                                  link := None, image := None\<rparr>) cs) h"
  by (simp add: EducationCard_def AchievementCard_def CertificateCard_def enumerate_map split_def o_def)

end
