(* ===== verification/Browser.thy ===== *)
theory Browser
  imports Prelude
begin

text \<open>
  The part of the browser the page's click handlers act on, modelled from the DOM and
  HTML standards (none of it is code of the repository): the current location
  (\<open>window.location.href\<close>), the windows opened by \<open>window.open(url, target)\<close>, the
  downloads started by activating an \<open>a\<close> element with a \<open>download\<close> attribute, and
  the children of \<open>document.body\<close> with a store of created elements, so that the
  handlers' \<open>createElement\<close>/\<open>appendChild\<close>/\<open>click\<close>/\<open>removeChild\<close> sequence is
  explicit state passing. \<open>removeChild\<close> of a node that is not a child throws
  \<open>NotFoundError\<close>; that is the only exception of this part.
  URLs are kept as the strings the page passes (relative paths are not resolved against
  the document's base URL).
\<close>

record Element =
  tagName :: string
  href :: "js_string option"
  download :: "js_string option"

record Browser =
  location_href :: js_string
  opened :: "(js_string \<times> js_string) list"
  downloads :: "(js_string \<times> js_string) list"
  body :: "nat list"
  elements :: "nat \<Rightarrow> Element option"
  next_node :: nat

datatype dom_error = NotFoundError

text \<open>\<open>document.createElement(tag)\<close>: a fresh element without attributes.\<close>

definition createElement :: "string \<Rightarrow> Browser \<Rightarrow> nat \<times> Browser" where
  "createElement tag b =
     (next_node b,
      b\<lparr>elements := (elements b)(next_node b \<mapsto> \<lparr>tagName = tag, href = None, download = None\<rparr>),
        next_node := Suc (next_node b)\<rparr>)"

text \<open>Setting an attribute of an element (\<open>link.href = v\<close>, \<open>link.download = v\<close>).\<close>

definition set_href :: "nat \<Rightarrow> js_string \<Rightarrow> Browser \<Rightarrow> Browser" where
  "set_href n v b =
     (case elements b n of
        None \<Rightarrow> b
      | Some e \<Rightarrow> b\<lparr>elements := (elements b)(n \<mapsto> e\<lparr>href := Some v\<rparr>)\<rparr>)"

definition set_download :: "nat \<Rightarrow> js_string \<Rightarrow> Browser \<Rightarrow> Browser" where
  "set_download n v b =
     (case elements b n of
        None \<Rightarrow> b
      | Some e \<Rightarrow> b\<lparr>elements := (elements b)(n \<mapsto> e\<lparr>download := Some v\<rparr>)\<rparr>)"

text \<open>
  \<open>document.body.appendChild(node)\<close>: a node has at most one parent, so a node that is
  already a child is moved to the end.
\<close>

definition appendChild :: "nat \<Rightarrow> Browser \<Rightarrow> Browser" where
  "appendChild n b = b\<lparr>body := removeAll n (body b) @ [n]\<rparr>"

text \<open>
  \<open>element.click()\<close> runs the activation behaviour of an \<open>a\<close> element with an
  \<open>href\<close>: with a \<open>download\<close> attribute the resource is downloaded under that file
  name, otherwise the location follows the link. Other elements have no activation
  behaviour here.
\<close>

definition click :: "nat \<Rightarrow> Browser \<Rightarrow> Browser" where
  "click n b =
     (case elements b n of
        None \<Rightarrow> b
      | Some e \<Rightarrow>
          if tagName e = ''a'' then
            (case href e of
               None \<Rightarrow> b
             | Some u \<Rightarrow>
                 (case download e of
                    Some f \<Rightarrow> b\<lparr>downloads := downloads b @ [(u, f)]\<rparr>
                  | None \<Rightarrow> b\<lparr>location_href := u\<rparr>))
          else b)"

text \<open>\<open>document.body.removeChild(node)\<close>.\<close>

definition removeChild :: "nat \<Rightarrow> Browser \<Rightarrow> dom_error + Browser" where
  "removeChild n b =
     (if n \<in> set (body b) then Inr (b\<lparr>body := remove1 n (body b)\<rparr>) else Inl NotFoundError)"

text \<open>\<open>window.open(url, target)\<close> and the assignment to \<open>window.location.href\<close>.\<close>

definition window_open :: "js_string \<Rightarrow> js_string \<Rightarrow> Browser \<Rightarrow> Browser" where
  "window_open url target b = b\<lparr>opened := opened b @ [(url, target)]\<rparr>"

definition set_location :: "js_string \<Rightarrow> Browser \<Rightarrow> Browser" where
  "set_location url b = b\<lparr>location_href := url\<rparr>"

text \<open>
  The well-formedness of the document: the body's children are distinct created
  elements, and no element is stored under an identifier not yet handed out.
\<close>

definition wf_browser :: "Browser \<Rightarrow> bool" where
  "wf_browser b \<longleftrightarrow>
     distinct (body b) \<and> (\<forall>n \<in> set (body b). n < next_node b \<and> elements b n \<noteq> None) \<and>
     (\<forall>n. next_node b \<le> n \<longrightarrow> elements b n = None)"

definition initial_browser :: "js_string \<Rightarrow> Browser" where
  "initial_browser url =
     \<lparr>location_href = url, opened = [], downloads = [], body = [], elements = Map.empty, next_node = 0\<rparr>"

end
