(* ===== verification/Uri.thy ===== *)
theory Uri
  imports Prelude
begin

text \<open>
  The URI encoding the page calls in \<open>handleWhatsAppClick\<close>
  (\<open>encodeURIComponent(message)\<close>, \<open>src/app/page.tsx\<close> lines 287--288). It is a
  built-in of ECMAScript, so it is modelled from ECMA-262: the abstract operations
  \<open>CodePointAt\<close> (11.1.4), \<open>UTF16SurrogatePairToCodePoint\<close> (11.1.3),
  \<open>UTF16EncodeCodePoint\<close> (11.1.1), \<open>Encode\<close> (19.2.6.5) and \<open>Decode\<close>
  (19.2.6.6), the latter being the inverse used to state the round trip.
  Strings are lists of 16-bit code units. The spec's index loops (\<open>k\<close> running over
  the string) are recursions over the unread suffix; a thrown \<open>URIError\<close> is \<open>Inl\<close>.
  Octets are natural numbers below 256.
\<close>

datatype uri_error = URIError

subsection \<open>Code points and surrogates\<close>

definition is_leading_surrogate :: "code_unit \<Rightarrow> bool" where
  "is_leading_surrogate c \<longleftrightarrow> 0xD800 \<le> unat c \<and> unat c \<le> 0xDBFF"

definition is_trailing_surrogate :: "code_unit \<Rightarrow> bool" where
  "is_trailing_surrogate c \<longleftrightarrow> 0xDC00 \<le> unat c \<and> unat c \<le> 0xDFFF"

definition UTF16SurrogatePairToCodePoint :: "code_unit \<Rightarrow> code_unit \<Rightarrow> nat" where
  "UTF16SurrogatePairToCodePoint lead trail =
     (unat lead - 0xD800) * 0x400 + (unat trail - 0xDC00) + 0x10000"

text \<open>
  \<open>CodePointAt(string, position)\<close>, with \<open>first\<close> the code unit at the position and
  \<open>rest\<close> the code units after it; the result is
  (\<open>[[CodePoint]]\<close>, \<open>[[CodeUnitCount]]\<close>, \<open>[[IsUnpairedSurrogate]]\<close>).
\<close>

definition CodePointAt :: "code_unit \<Rightarrow> js_string \<Rightarrow> nat \<times> nat \<times> bool" where
  "CodePointAt first rest =
     (if \<not> is_leading_surrogate first \<and> \<not> is_trailing_surrogate first then (unat first, 1, False)
      else if is_trailing_surrogate first then (unat first, 1, True)
      else (case rest of
              [] \<Rightarrow> (unat first, 1, True)
            | second # _ \<Rightarrow>
                if \<not> is_trailing_surrogate second then (unat first, 1, True)
                else (UTF16SurrogatePairToCodePoint first second, 2, False)))"

definition UTF16EncodeCodePoint :: "nat \<Rightarrow> js_string" where
  "UTF16EncodeCodePoint cp =
     (if cp \<le> 0xFFFF then [of_nat cp]
      else [of_nat ((cp - 0x10000) div 0x400 + 0xD800), of_nat ((cp - 0x10000) mod 0x400 + 0xDC00)])"

subsection \<open>UTF-8\<close>

text \<open>The UTF-8 transformation of a code point (RFC 3629, table of section 3).\<close>

definition utf8_encode :: "nat \<Rightarrow> nat list" where
  "utf8_encode cp =
     (if cp < 0x80 then [cp]
      else if cp < 0x800 then [0xC0 + cp div 0x40, 0x80 + cp mod 0x40]
      else if cp < 0x10000 then
        [0xE0 + cp div 0x1000, 0x80 + (cp div 0x40) mod 0x40, 0x80 + cp mod 0x40]
      else [0xF0 + cp div 0x40000, 0x80 + (cp div 0x1000) mod 0x40,
            0x80 + (cp div 0x40) mod 0x40, 0x80 + cp mod 0x40])"

definition is_continuation :: "nat \<Rightarrow> bool" where
  "is_continuation b \<longleftrightarrow> 0x80 \<le> b \<and> b < 0xC0"

text \<open>
  Decoding a complete sequence of \<open>n\<close> octets (the count read from the leading octet);
  \<open>None\<close> when the octets are not a valid UTF-8 encoding of a code point: a
  continuation octet out of range, an over-long form, a surrogate, or a value beyond
  U+10FFFF (the well-formed sequences of Unicode table 3-7).
\<close>

fun utf8_decode :: "nat list \<Rightarrow> nat option" where
  "utf8_decode [b0, b1] =
     (if is_continuation b1 then
        (let cp = (b0 mod 0x20) * 0x40 + b1 mod 0x40 in if 0x80 \<le> cp then Some cp else None)
      else None)"
| "utf8_decode [b0, b1, b2] =
     (if is_continuation b1 \<and> is_continuation b2 then
        (let cp = (b0 mod 0x10) * 0x1000 + (b1 mod 0x40) * 0x40 + b2 mod 0x40 in
         if 0x800 \<le> cp \<and> \<not> (0xD800 \<le> cp \<and> cp \<le> 0xDFFF) then Some cp else None)
      else None)"
| "utf8_decode [b0, b1, b2, b3] =
     (if is_continuation b1 \<and> is_continuation b2 \<and> is_continuation b3 then
        (let cp = (b0 mod 0x08) * 0x40000 + (b1 mod 0x40) * 0x1000 + (b2 mod 0x40) * 0x40 + b3 mod 0x40 in
         if 0x10000 \<le> cp \<and> cp \<le> 0x10FFFF then Some cp else None)
      else None)"
| "utf8_decode _ = None"

text \<open>The number of leading 1 bits of an octet.\<close>

definition leading_ones :: "nat \<Rightarrow> nat" where
  "leading_ones b =
     (if b < 0x80 then 0 else if b < 0xC0 then 1 else if b < 0xE0 then 2 else if b < 0xF0 then 3
      else if b < 0xF8 then 4 else if b < 0xFC then 5 else if b < 0xFE then 6
      else if b < 0xFF then 7 else 8)"

subsection \<open>Hexadecimal escapes\<close>

text \<open>An uppercase hexadecimal digit, as \<open>Encode\<close> writes it.\<close>

definition hex_digit :: "nat \<Rightarrow> code_unit" where
  "hex_digit d = (if d < 10 then of_nat (0x30 + d) else of_nat (0x37 + d))"

text \<open>\<open>"%"\<close> followed by the two-digit uppercase hexadecimal form of an octet.\<close>

definition percent_octet :: "nat \<Rightarrow> js_string" where
  "percent_octet b = [0x25, hex_digit (b div 16), hex_digit (b mod 16)]"

text \<open>The value of a \<open>HexDigit\<close> of either case.\<close>

definition hex_value :: "code_unit \<Rightarrow> nat option" where
  "hex_value c =
     (if 0x30 \<le> unat c \<and> unat c \<le> 0x39 then Some (unat c - 0x30)
      else if 0x41 \<le> unat c \<and> unat c \<le> 0x46 then Some (unat c - 0x37)
      else if 0x61 \<le> unat c \<and> unat c \<le> 0x66 then Some (unat c - 0x57)
      else None)"

text \<open>
  \<open>ParseHexOctet\<close> at the position after a \<open>"%"\<close>, together with the rest of the
  string; \<open>None\<close> both when fewer than two code units remain (\<open>k + 3 > strLen\<close>) and
  when they are not hexadecimal digits.
\<close>

fun ParseHexOctet :: "js_string \<Rightarrow> (nat \<times> js_string) option" where
  "ParseHexOctet (h1 # h2 # rest) =
     (case (hex_value h1, hex_value h2) of
        (Some a, Some b) \<Rightarrow> Some (16 * a + b, rest)
      | _ \<Rightarrow> None)"
| "ParseHexOctet _ = None"

subsection \<open>Encode\<close>

text \<open>The ASCII word characters and \<open>"-.!~*'()"\<close>: the code units never escaped.\<close>

definition alwaysUnescaped :: js_string where
  "alwaysUnescaped = js (''abcdefghijklmnopqrstuvwxyzABCDEFGHIJKLMNOPQRSTUVWXYZ0123456789_'' @ ''-.!~*'()'')"

text \<open>
  \<open>Encode(string, extraUnescaped)\<close>. A code unit of the unescaped set is copied;
  otherwise the code point at the position is read, an unpaired surrogate throws, and
  the UTF-8 octets of the code point are appended as escapes, the loop going on after
  \<open>[[CodeUnitCount]]\<close> code units.
\<close>

function Encode :: "js_string \<Rightarrow> js_string \<Rightarrow> uri_error + js_string" where
  "Encode [] extra = Inr []"
| "Encode (c # cs) extra =
     (if c \<in> set (alwaysUnescaped @ extra) then res_prepend [c] (Encode cs extra)
      else (case CodePointAt c cs of
              (cp, n, unpaired) \<Rightarrow>
                if unpaired then Inl URIError
                else res_prepend (concat (map percent_octet (utf8_encode cp)))
                       (Encode (drop n (c # cs)) extra)))"
  by pat_completeness auto

termination Encode
  by (relation "measure (\<lambda>(s, extra). length s)")
    (auto simp: CodePointAt_def split: if_splits list.splits)

definition encodeURIComponent :: "js_string \<Rightarrow> uri_error + js_string" where
  "encodeURIComponent s = Encode s []"

subsection \<open>Decode\<close>

text \<open>
  The continuation octets of a multi-octet escape: each must be a \<open>"%"\<close> followed
  by a hexadecimal octet (\<open>Decode\<close>, step 4.d.vii of the inner loop).
\<close>

fun read_continuations :: "nat \<Rightarrow> js_string \<Rightarrow> (nat list \<times> js_string) option" where
  "read_continuations 0 s = Some ([], s)"
| "read_continuations (Suc j) [] = None"
| "read_continuations (Suc j) (c # rest) =
     (if c \<noteq> 0x25 then None
      else (case ParseHexOctet rest of
              None \<Rightarrow> None
            | Some (b, rest') \<Rightarrow>
                (case read_continuations j rest' of
                   None \<Rightarrow> None
                 | Some (bs, r) \<Rightarrow> Some (b # bs, r))))"

text \<open>
  \<open>Decode(string, preserveEscapeSet)\<close>. A code unit other than \<open>"%"\<close> is copied; an
  escape of an octet below 0x80 gives that code unit (or the escape itself when it
  is to be preserved); otherwise the leading octet fixes the length of the sequence,
  its continuation escapes are read and the sequence must be valid UTF-8.
\<close>

function Decode :: "js_string \<Rightarrow> js_string \<Rightarrow> uri_error + js_string" where
  "Decode [] preserve = Inr []"
| "Decode (c # cs) preserve =
     (if c \<noteq> 0x25 then res_prepend [c] (Decode cs preserve)
      else (case ParseHexOctet cs of
              None \<Rightarrow> Inl URIError
            | Some (b, rest) \<Rightarrow>
                (let n = leading_ones b in
                 if n = 0 then
                   res_prepend (if of_nat b \<in> set preserve then take 3 (c # cs) else [of_nat b])
                     (Decode rest preserve)
                 else if n = 1 \<or> 4 < n then Inl URIError
                 else (case read_continuations (n - 1) rest of
                         None \<Rightarrow> Inl URIError
                       | Some (bs, rest') \<Rightarrow>
                           (case utf8_decode (b # bs) of
                              None \<Rightarrow> Inl URIError
                            | Some v \<Rightarrow> res_prepend (UTF16EncodeCodePoint v) (Decode rest' preserve))))))"
  by pat_completeness auto

termination Decode
proof -
  have pl: "length s = length rest + 2" if "ParseHexOctet s = Some (b, rest)" for s b rest
    using that by (induction s rule: ParseHexOctet.induct) (auto split: option.splits)
  have rl: "length r \<le> length s" if "read_continuations j s = Some (bs, r)" for j s bs r
    using that by (induction j s arbitrary: bs rule: read_continuations.induct)
      (fastforce split: if_splits option.splits dest: pl)+
  show ?thesis
    by (relation "measure (\<lambda>(s, preserve). length s)") (auto dest!: pl rl)
qed

definition decodeURIComponent :: "js_string \<Rightarrow> uri_error + js_string" where
  "decodeURIComponent s = Decode s []"


subsection \<open>Well-formed UTF-16\<close>

text \<open>A string without unpaired surrogates (ECMA-262, 6.1.4).\<close>

fun wf_utf16 :: "js_string \<Rightarrow> bool" where
  "wf_utf16 [] = True"
| "wf_utf16 (c # cs) =
     (if is_leading_surrogate c then
        (case cs of [] \<Rightarrow> False | d # ds \<Rightarrow> is_trailing_surrogate d \<and> wf_utf16 ds)
      else \<not> is_trailing_surrogate c \<and> wf_utf16 cs)"

text \<open>A Unicode scalar value: a code point that is not a surrogate.\<close>

definition valid_code_point :: "nat \<Rightarrow> bool" where
  "valid_code_point cp \<longleftrightarrow> cp < 0x110000 \<and> \<not> (0xD800 \<le> cp \<and> cp \<le> 0xDFFF)"

text \<open>The digits \<open>Encode\<close> writes in an escape.\<close>

definition is_upper_hex :: "code_unit \<Rightarrow> bool" where
  "is_upper_hex x \<longleftrightarrow> (0x30 \<le> unat x \<and> unat x \<le> 0x39) \<or> (0x41 \<le> unat x \<and> unat x \<le> 0x46)"

subsection \<open>Hexadecimal escapes are read back\<close>

lemma hex_value_hex_digit: "d < 16 \<Longrightarrow> hex_value (hex_digit d) = Some d"
proof -
  assume d: "d < 16"
  have "unat (hex_digit d) = (if d < 10 then 0x30 + d else 0x37 + d)"
    using d by (simp add: hex_digit_def unat_of_nat del: of_nat_add)
  then show ?thesis
    using d by (simp add: hex_value_def)
qed

lemma ParseHexOctet_percent:
  "b < 256 \<Longrightarrow> ParseHexOctet (tl (percent_octet b) @ rest) = Some (b, rest)"
proof -
  assume "b < 256"
  then have "b div 16 < 16" and "b mod 16 < 16" by simp_all
  then show ?thesis
    by (simp add: percent_octet_def hex_value_hex_digit)
qed


subsection \<open>UTF-8 decoding inverts the encoding\<close>

lemma cont_mod: "(0x80 + x mod 0x40) mod 0x40 = x mod (0x40::nat)"
  using mod_add_multiple [of 2 64 "x mod 64"] by simp

lemma cont_is_continuation: "is_continuation (0x80 + x mod 0x40)"
  by (simp add: is_continuation_def)

lemma utf8_digits3: "(cp div 0x1000) * 0x1000 + ((cp div 0x40) mod 0x40) * 0x40 + cp mod 0x40 = (cp::nat)"
proof -
  have "cp div 4096 = cp div 64 div 64" by (simp add: div_mult2_eq)
  moreover have "cp div 64 div 64 * 64 + cp div 64 mod 64 = cp div 64" by (rule div_mult_mod_eq)
  moreover have "cp div 64 * 64 + cp mod 64 = cp" by (rule div_mult_mod_eq)
  ultimately show ?thesis by linarith
qed

lemma utf8_digits4:
  "(cp div 0x40000) * 0x40000 + ((cp div 0x1000) mod 0x40) * 0x1000 + ((cp div 0x40) mod 0x40) * 0x40
     + cp mod 0x40 = (cp::nat)"
proof -
  have "cp div 262144 = cp div 4096 div 64" by (simp add: div_mult2_eq)
  moreover have "cp div 4096 div 64 * 64 + cp div 4096 mod 64 = cp div 4096" by (rule div_mult_mod_eq)
  moreover have "(cp div 0x1000) * 0x1000 + ((cp div 0x40) mod 0x40) * 0x40 + cp mod 0x40 = cp"
    by (rule utf8_digits3)
  ultimately show ?thesis by linarith
qed

lemma utf8_decode_2:
  assumes "0x80 \<le> cp" "cp < 0x800"
  shows "utf8_decode [0xC0 + cp div 0x40, 0x80 + cp mod 0x40] = Some cp"
proof -
  have "cp div 64 < 32" using assms(2) by (simp add: div_less_iff_less_mult)
  then have b0: "(0xC0 + cp div 0x40) mod 0x20 = cp div 0x40"
    using mod_add_multiple [of 6 32 "cp div 64"] by simp
  show ?thesis using assms by (simp add: b0 cont_mod cont_is_continuation)
qed

lemma utf8_decode_3:
  assumes "0x800 \<le> cp" "cp < 0x10000" "\<not> (0xD800 \<le> cp \<and> cp \<le> 0xDFFF)"
  shows "utf8_decode [0xE0 + cp div 0x1000, 0x80 + (cp div 0x40) mod 0x40, 0x80 + cp mod 0x40] = Some cp"
proof -
  have "cp div 4096 < 16" using assms(2) by (simp add: div_less_iff_less_mult)
  then have b0: "(0xE0 + cp div 0x1000) mod 0x10 = cp div 0x1000"
    using mod_add_multiple [of 14 16 "cp div 4096"] by simp
  show ?thesis using assms by (simp add: b0 cont_mod cont_is_continuation utf8_digits3)
qed

lemma utf8_decode_4:
  assumes "0x10000 \<le> cp" "cp < 0x110000"
  shows "utf8_decode [0xF0 + cp div 0x40000, 0x80 + (cp div 0x1000) mod 0x40,
                      0x80 + (cp div 0x40) mod 0x40, 0x80 + cp mod 0x40] = Some cp"
proof -
  have "cp div 262144 < 8" using assms(2) by (simp add: div_less_iff_less_mult)
  then have b0: "(0xF0 + cp div 0x40000) mod 0x08 = cp div 0x40000"
    using mod_add_multiple [of 30 8 "cp div 262144"] by simp
  show ?thesis using assms by (simp add: b0 cont_mod cont_is_continuation utf8_digits4)
qed


lemma leading_ones_utf8:
  assumes "valid_code_point cp"
  shows "leading_ones (hd (utf8_encode cp)) = (if cp < 0x80 then 0 else length (utf8_encode cp))"
proof -
  consider "cp < 0x80" | "0x80 \<le> cp" "cp < 0x800" | "0x800 \<le> cp" "cp < 0x10000"
    | "0x10000 \<le> cp" "cp < 0x110000"
    using assms by (force simp: valid_code_point_def)
  then show ?thesis
  proof cases
    case 1
    then show ?thesis by (simp add: utf8_encode_def leading_ones_def)
  next
    case 2
    then have "cp div 64 < 32" by (simp add: div_less_iff_less_mult)
    moreover from 2 have "2 \<le> cp div 64" by (simp add: less_eq_div_iff_mult_less_eq)
    ultimately show ?thesis using 2 by (simp add: utf8_encode_def leading_ones_def)
  next
    case 3
    then have "cp div 4096 < 16" by (simp add: div_less_iff_less_mult)
    then show ?thesis using 3 by (simp add: utf8_encode_def leading_ones_def)
  next
    case 4
    then have "cp div 262144 < 5" by (simp add: div_less_iff_less_mult)
    then show ?thesis using 4 by (simp add: utf8_encode_def leading_ones_def)
  qed
qed

lemma utf8_encode_octets:
  "valid_code_point cp \<Longrightarrow> \<forall>b \<in> set (utf8_encode cp). b < 256"
  by (auto simp add: utf8_encode_def valid_code_point_def div_less_iff_less_mult)

lemma utf8_encode_length:
  "valid_code_point cp \<Longrightarrow> 1 \<le> length (utf8_encode cp) \<and> length (utf8_encode cp) \<le> 4"
  by (simp add: utf8_encode_def)

lemma utf8_decode_utf8_encode:
  assumes "valid_code_point cp" "0x80 \<le> cp"
  shows "utf8_decode (utf8_encode cp) = Some cp"
proof -
  consider "cp < 0x800" | "0x800 \<le> cp" "cp < 0x10000" | "0x10000 \<le> cp"
    by linarith
  then show ?thesis
  proof cases
    case 1
    then have "utf8_encode cp = [0xC0 + cp div 0x40, 0x80 + cp mod 0x40]"
      using assms(2) by (simp add: utf8_encode_def)
    then show ?thesis using assms(2) 1 by (simp only: utf8_decode_2)
  next
    case 2
    then have e: "utf8_encode cp = [0xE0 + cp div 0x1000, 0x80 + (cp div 0x40) mod 0x40, 0x80 + cp mod 0x40]"
      by (simp add: utf8_encode_def)
    have ns: "\<not> (0xD800 \<le> cp \<and> cp \<le> 0xDFFF)"
      using assms(1) by (simp add: valid_code_point_def)
    show ?thesis unfolding e using 2 ns by (rule utf8_decode_3)
  next
    case 3
    then have "utf8_encode cp = [0xF0 + cp div 0x40000, 0x80 + (cp div 0x1000) mod 0x40,
                                 0x80 + (cp div 0x40) mod 0x40, 0x80 + cp mod 0x40]"
      by (simp add: utf8_encode_def)
    moreover have "cp < 0x110000" using assms(1) by (simp add: valid_code_point_def)
    ultimately show ?thesis using 3 by (simp only: utf8_decode_4 [OF 3])
  qed
qed

subsection \<open>Decoding the escapes of one code point\<close>

lemma percent_octet_append:
  "percent_octet b @ rest = 0x25 # (tl (percent_octet b) @ rest)"
  by (simp add: percent_octet_def)

lemma read_continuations_percent:
  "\<forall>b \<in> set bs. b < 256 \<Longrightarrow>
   read_continuations (length bs) (concat (map percent_octet bs) @ rest) = Some (bs, rest)"
proof (induction bs)
  case Nil
  then show ?case by simp
next
  case (Cons b bs)
  then have "ParseHexOctet (tl (percent_octet b) @ concat (map percent_octet bs) @ rest)
               = Some (b, concat (map percent_octet bs) @ rest)"
    by (simp add: ParseHexOctet_percent)
  with Cons show ?case by (simp add: percent_octet_append)
qed

lemma Decode_escape_ascii:
  "b < 0x80 \<Longrightarrow> of_nat b \<notin> set p \<Longrightarrow>
   Decode (percent_octet b @ rest) p = res_prepend [of_nat b] (Decode rest p)"
proof -
  assume b: "b < 0x80" and np: "of_nat b \<notin> set p"
  from b have "ParseHexOctet (tl (percent_octet b) @ rest) = Some (b, rest)"
    by (simp add: ParseHexOctet_percent)
  moreover from b have "leading_ones b = 0" by (simp add: leading_ones_def)
  ultimately show ?thesis using np by (simp add: percent_octet_append)
qed

lemma Decode_escape_seq:
  assumes "b < 256" "\<forall>x \<in> set bs. x < 256" "leading_ones b = Suc (length bs)"
    "1 \<le> length bs" "length bs \<le> 3" "utf8_decode (b # bs) = Some v"
  shows "Decode (concat (map percent_octet (b # bs)) @ rest) p
           = res_prepend (UTF16EncodeCodePoint v) (Decode rest p)"
proof -
  have "ParseHexOctet (tl (percent_octet b) @ concat (map percent_octet bs) @ rest)
          = Some (b, concat (map percent_octet bs) @ rest)"
    using assms(1) by (rule ParseHexOctet_percent)
  moreover have "read_continuations (length bs) (concat (map percent_octet bs) @ rest) = Some (bs, rest)"
    using assms(2) by (rule read_continuations_percent)
  moreover have "bs \<noteq> []" using assms(4) by auto
  ultimately show ?thesis using assms(3-6) by (simp add: percent_octet_append Let_def)
qed


subsection \<open>Encoding and decoding a string\<close>

lemma Decode_utf8_escapes:
  assumes "valid_code_point cp" "cp < 0x80 \<Longrightarrow> of_nat cp \<notin> set p"
  shows "Decode (concat (map percent_octet (utf8_encode cp)) @ rest) p
           = res_prepend (UTF16EncodeCodePoint cp) (Decode rest p)"
proof (cases "cp < 0x80")
  case True
  then have "utf8_encode cp = [cp]" and "UTF16EncodeCodePoint cp = [of_nat cp]"
    by (simp_all add: utf8_encode_def UTF16EncodeCodePoint_def)
  with True assms(2) show ?thesis by (simp add: Decode_escape_ascii)
next
  case False
  then have "2 \<le> length (utf8_encode cp)" "length (utf8_encode cp) \<le> 4"
    by (simp_all add: utf8_encode_def)
  then obtain b bs where e: "utf8_encode cp = b # bs" and l: "1 \<le> length bs" "length bs \<le> 3"
    by (cases "utf8_encode cp") auto
  have "leading_ones b = Suc (length bs)"
    using leading_ones_utf8 [OF assms(1)] False e by simp
  moreover have "b < 256" "\<forall>x \<in> set bs. x < 256"
    using utf8_encode_octets [OF assms(1)] e by simp_all
  moreover have "utf8_decode (b # bs) = Some cp"
    using utf8_decode_utf8_encode [OF assms(1)] False e by simp
  ultimately show ?thesis using l e by (simp only: Decode_escape_seq)
qed

lemma CodePointAt_UTF16EncodeCodePoint:
  assumes "CodePointAt c cs = (cp, n, False)"
  shows "valid_code_point cp \<and> UTF16EncodeCodePoint cp = take n (c # cs)"
proof (cases "is_leading_surrogate c \<or> is_trailing_surrogate c")
  case False
  then have "cp = unat c" "n = 1" using assms by (simp_all add: CodePointAt_def)
  moreover have "unat c \<le> 65535" using unat_code_unit_bound [of c] by linarith
  ultimately show ?thesis using False
    by (auto simp add: valid_code_point_def UTF16EncodeCodePoint_def is_leading_surrogate_def
        is_trailing_surrogate_def)
next
  case True
  with assms obtain d ds where cs: "cs = d # ds" and lead: "is_leading_surrogate c"
    and trail: "is_trailing_surrogate d" and cp: "cp = UTF16SurrogatePairToCodePoint c d" and n: "n = 2"
    by (auto simp add: CodePointAt_def split: if_splits list.splits)
  define hi lo where "hi = unat c - 0xD800" and "lo = unat d - 0xDC00"
  have hi: "hi < 0x400" "unat c = hi + 0xD800"
    using lead by (auto simp add: hi_def is_leading_surrogate_def)
  have lo: "lo < 0x400" "unat d = lo + 0xDC00"
    using trail by (auto simp add: lo_def is_trailing_surrogate_def)
  have cpv: "cp = hi * 0x400 + lo + 0x10000"
    by (simp add: cp UTF16SurrogatePairToCodePoint_def hi_def lo_def)
  have "(cp - 0x10000) div 0x400 = hi" and "(cp - 0x10000) mod 0x400 = lo"
    using lo(1) by (simp_all add: cpv)
  moreover have "of_nat (hi + 0xD800) = c" "of_nat (lo + 0xDC00) = d"
    by (simp_all flip: hi(2) lo(2))
  moreover have "0x10000 \<le> cp" "cp < 0x110000"
    using hi(1) lo(1) by (simp_all add: cpv)
  ultimately show ?thesis
    by (simp add: valid_code_point_def UTF16EncodeCodePoint_def cs n)
qed

lemma alwaysUnescaped_ascii: "\<forall>c \<in> set alwaysUnescaped. unat c < 0x80 \<and> c \<noteq> 0x25"
  by (simp add: alwaysUnescaped_def js_def)

lemma Encode_Decode:
  "Encode s extra = Inr r \<Longrightarrow> 0x25 \<notin> set extra \<Longrightarrow> Decode r [] = Inr s"
proof (induction s extra arbitrary: r rule: Encode.induct)
  case (1 extra)
  then show ?case by simp
next
  case (2 c cs extra)
  show ?case
  proof (cases "c \<in> set (alwaysUnescaped @ extra)")
    case True
    with "2.prems"(1) obtain r' where r': "Encode cs extra = Inr r'" and r: "r = c # r'"
      by (auto simp add: res_prepend_eq_Inr)
    have "c \<noteq> 0x25" using True "2.prems"(2) alwaysUnescaped_ascii by auto
    moreover have "Decode r' [] = Inr cs" using "2.IH"(1) [OF True r'] "2.prems"(2) .
    ultimately show ?thesis using r by simp
  next
    case False
    obtain cp n u where cpa: "CodePointAt c cs = (cp, n, u)"
      by (cases "CodePointAt c cs") auto
    with False "2.prems"(1) obtain r' where u: "\<not> u"
      and r': "Encode (drop n (c # cs)) extra = Inr r'"
      and r: "r = concat (map percent_octet (utf8_encode cp)) @ r'"
      by (auto simp add: res_prepend_eq_Inr split: if_splits)
    have IH: "Decode r' [] = Inr (drop n (c # cs))"
      using "2.IH"(2) [OF False cpa [symmetric] refl u r'] "2.prems"(2) .
    from cpa u have "valid_code_point cp" "UTF16EncodeCodePoint cp = take n (c # cs)"
      using CodePointAt_UTF16EncodeCodePoint by auto
    then show ?thesis using r IH by (simp add: Decode_utf8_escapes)
  qed
qed

lemma leading_not_trailing: "is_leading_surrogate c \<Longrightarrow> \<not> is_trailing_surrogate c"
  by (simp add: is_leading_surrogate_def is_trailing_surrogate_def)

lemma unescaped_not_surrogate:
  "c \<in> set (alwaysUnescaped @ extra) \<Longrightarrow> \<forall>x \<in> set extra. unat x < 0x80 \<Longrightarrow>
   \<not> is_leading_surrogate c \<and> \<not> is_trailing_surrogate c"
  using alwaysUnescaped_ascii
  by (auto simp add: is_leading_surrogate_def is_trailing_surrogate_def)

lemma wf_utf16_Encode:
  "wf_utf16 s \<Longrightarrow> \<forall>x \<in> set extra. unat x < 0x80 \<Longrightarrow> \<exists>r. Encode s extra = Inr r"
proof (induction s extra rule: Encode.induct)
  case (1 extra)
  then show ?case by simp
next
  case (2 c cs extra)
  show ?case
  proof (cases "c \<in> set (alwaysUnescaped @ extra)")
    case True
    then have "\<not> is_leading_surrogate c" using unescaped_not_surrogate "2.prems"(2) by blast
    then have "wf_utf16 cs" using "2.prems"(1) by simp
    then show ?thesis using "2.IH"(1) [OF True] True "2.prems"(2) by auto
  next
    case False
    obtain cp n u where cpa: "CodePointAt c cs = (cp, n, u)"
      by (cases "CodePointAt c cs") auto
    have "\<not> u \<and> wf_utf16 (drop n (c # cs))"
    proof (cases "is_leading_surrogate c")
      case True
      with "2.prems"(1) obtain d ds where "cs = d # ds" "is_trailing_surrogate d" "wf_utf16 ds"
        by (auto split: list.splits)
      with True cpa show ?thesis by (simp add: CodePointAt_def leading_not_trailing)
    next
      case False
      with "2.prems"(1) have "\<not> is_trailing_surrogate c" "wf_utf16 cs" by simp_all
      with False cpa show ?thesis by (auto simp add: CodePointAt_def)
    qed
    then show ?thesis using "2.IH"(2) [OF False cpa [symmetric] refl] False cpa "2.prems"(2) by auto
  qed
qed

lemma Encode_wf_utf16:
  "Encode s extra = Inr r \<Longrightarrow> \<forall>x \<in> set extra. unat x < 0x80 \<Longrightarrow> wf_utf16 s"
proof (induction s extra arbitrary: r rule: Encode.induct)
  case (1 extra)
  then show ?case by simp
next
  case (2 c cs extra)
  show ?case
  proof (cases "c \<in> set (alwaysUnescaped @ extra)")
    case True
    then have "\<not> is_leading_surrogate c \<and> \<not> is_trailing_surrogate c"
      using unescaped_not_surrogate "2.prems"(2) by blast
    moreover obtain r' where "Encode cs extra = Inr r'"
      using True "2.prems"(1) by (auto simp add: res_prepend_eq_Inr)
    ultimately show ?thesis using True "2.IH"(1) "2.prems"(2) by auto
  next
    case False
    obtain cp n u where cpa: "CodePointAt c cs = (cp, n, u)"
      by (cases "CodePointAt c cs") auto
    with False "2.prems"(1) obtain r' where u: "\<not> u" and r': "Encode (drop n (c # cs)) extra = Inr r'"
      by (auto simp add: res_prepend_eq_Inr split: if_splits)
    have "wf_utf16 (drop n (c # cs))"
      using "2.IH"(2) [OF False cpa [symmetric] refl u r'] "2.prems"(2) .
    then show ?thesis using cpa u by (auto simp add: CodePointAt_def split: if_splits list.splits)
  qed
qed

lemma unat_hex_digit: "d < 16 \<Longrightarrow> unat (hex_digit d) = (if d < 10 then 0x30 + d else 0x37 + d)"
  by (simp add: hex_digit_def unat_of_nat del: of_nat_add)

lemma percent_octet_alphabet:
  assumes "b < 256" "x \<in> set (percent_octet b)"
  shows "x = 0x25 \<or> is_upper_hex x"
proof -
  have "b div 16 \<le> 15" "b mod 16 \<le> 15" using assms(1) by simp_all
  then have "is_upper_hex (hex_digit (b div 16))" "is_upper_hex (hex_digit (b mod 16))"
    by (simp_all add: is_upper_hex_def unat_hex_digit)
  then show ?thesis using assms(2) by (auto simp add: percent_octet_def)
qed

lemma length_percent_octets: "length (concat (map percent_octet bs)) = 3 * length bs"
  by (induction bs) (simp_all add: percent_octet_def)

lemma CodePointAt_utf8_length:
  assumes "CodePointAt c cs = (cp, n, False)"
  shows "n \<le> length (utf8_encode cp) \<and> length (utf8_encode cp) \<le> 3 * n"
proof (cases "is_leading_surrogate c \<or> is_trailing_surrogate c")
  case False
  then have "cp = unat c" "n = 1" using assms by (simp_all add: CodePointAt_def)
  moreover have "unat c < 65536" by (rule unat_code_unit_bound)
  ultimately show ?thesis by (simp add: utf8_encode_def)
next
  case True
  with assms obtain d where cp: "cp = UTF16SurrogatePairToCodePoint c d" and n: "n = 2"
    by (auto simp add: CodePointAt_def split: if_splits list.splits)
  then have "0x10000 \<le> cp" by (simp add: UTF16SurrogatePairToCodePoint_def)
  then show ?thesis by (simp add: utf8_encode_def n)
qed

lemma Encode_alphabet:
  "Encode s extra = Inr r \<Longrightarrow> x \<in> set r \<Longrightarrow>
   x \<in> set (alwaysUnescaped @ extra) \<or> x = 0x25 \<or> is_upper_hex x"
proof (induction s extra arbitrary: r rule: Encode.induct)
  case (1 extra)
  then show ?case by simp
next
  case (2 c cs extra)
  show ?case
  proof (cases "c \<in> set (alwaysUnescaped @ extra)")
    case True
    with "2.prems" "2.IH"(1) show ?thesis by (auto simp add: res_prepend_eq_Inr)
  next
    case False
    obtain cp n u where cpa: "CodePointAt c cs = (cp, n, u)"
      by (cases "CodePointAt c cs") auto
    with False "2.prems"(1) obtain r' where u: "\<not> u"
      and r': "Encode (drop n (c # cs)) extra = Inr r'"
      and r: "r = concat (map percent_octet (utf8_encode cp)) @ r'"
      by (auto simp add: res_prepend_eq_Inr split: if_splits)
    have "valid_code_point cp" using cpa u CodePointAt_UTF16EncodeCodePoint by auto
    then have oct: "\<forall>b \<in> set (utf8_encode cp). b < 256" by (rule utf8_encode_octets)
    show ?thesis
    proof (cases "x \<in> set r'")
      case True
      then show ?thesis using "2.IH"(2) [OF False cpa [symmetric] refl u r'] by blast
    next
      case False
      with "2.prems"(2) r obtain b where "b \<in> set (utf8_encode cp)" "x \<in> set (percent_octet b)"
        by auto
      with oct show ?thesis using percent_octet_alphabet by blast
    qed
  qed
qed

lemma Encode_length:
  "Encode s extra = Inr r \<Longrightarrow> length s \<le> length r \<and> length r \<le> 9 * length s"
proof (induction s extra arbitrary: r rule: Encode.induct)
  case (1 extra)
  then show ?case by simp
next
  case (2 c cs extra)
  show ?case
  proof (cases "c \<in> set (alwaysUnescaped @ extra)")
    case True
    with "2.prems" "2.IH"(1) show ?thesis by (fastforce simp add: res_prepend_eq_Inr)
  next
    case False
    obtain cp n u where cpa: "CodePointAt c cs = (cp, n, u)"
      by (cases "CodePointAt c cs") auto
    with False "2.prems"(1) obtain r' where u: "\<not> u"
      and r': "Encode (drop n (c # cs)) extra = Inr r'"
      and r: "r = concat (map percent_octet (utf8_encode cp)) @ r'"
      by (auto simp add: res_prepend_eq_Inr split: if_splits)
    have IH: "length (drop n (c # cs)) \<le> length r' \<and> length r' \<le> 9 * length (drop n (c # cs))"
      using "2.IH"(2) [OF False cpa [symmetric] refl u r'] .
    have n: "1 \<le> n \<and> n \<le> length (c # cs)"
      using cpa by (auto simp add: CodePointAt_def split: if_splits list.splits)
    have "n \<le> length (utf8_encode cp) \<and> length (utf8_encode cp) \<le> 3 * n"
      using cpa u CodePointAt_utf8_length by auto
    moreover have "length r = 3 * length (utf8_encode cp) + length r'"
      by (simp add: r length_percent_octets)
    ultimately show ?thesis using IH n by simp arith
  qed
qed

text \<open>
  Finer: a code unit of the unescaped set costs one code unit of the result, every other
  code unit between three (one octet) and nine (a three-octet character).
\<close>

lemma CodePointAt_consumed:
  assumes "CodePointAt c cs = (cp, n, False)" "c \<notin> set A" "\<forall>x \<in> set A. \<not> is_trailing_surrogate x"
  shows "length (filter (\<lambda>x. x \<in> set A) (c # cs)) = length (filter (\<lambda>x. x \<in> set A) (drop n (c # cs))) \<and>
         length (filter (\<lambda>x. x \<notin> set A) (c # cs)) = n + length (filter (\<lambda>x. x \<notin> set A) (drop n (c # cs)))"
proof (cases "is_leading_surrogate c \<or> is_trailing_surrogate c")
  case False
  then have "n = 1" using assms(1) by (simp add: CodePointAt_def)
  then show ?thesis using assms(2) by simp
next
  case True
  with assms(1) obtain d cs' where cs: "cs = d # cs'" and d: "is_trailing_surrogate d" and n: "n = 2"
    by (auto simp add: CodePointAt_def split: if_splits list.splits)
  have "d \<notin> set A" using d assms(3) by blast
  then show ?thesis using assms(2) cs n by simp
qed

lemma Encode_length_escaped:
  "Encode s extra = Inr r \<Longrightarrow> \<forall>x \<in> set extra. unat x < 0x80 \<Longrightarrow>
   length (filter (\<lambda>x. x \<in> set (alwaysUnescaped @ extra)) s) +
     3 * length (filter (\<lambda>x. x \<notin> set (alwaysUnescaped @ extra)) s) \<le> length r \<and>
   length r \<le> length (filter (\<lambda>x. x \<in> set (alwaysUnescaped @ extra)) s) +
     9 * length (filter (\<lambda>x. x \<notin> set (alwaysUnescaped @ extra)) s)"
proof (induction s extra arbitrary: r rule: Encode.induct)
  case (1 extra)
  then show ?case by simp
next
  case (2 c cs extra)
  show ?case
  proof (cases "c \<in> set (alwaysUnescaped @ extra)")
    case True
    with "2.prems" "2.IH"(1) show ?thesis by (fastforce simp add: res_prepend_eq_Inr)
  next
    case False
    obtain cp n u where cpa: "CodePointAt c cs = (cp, n, u)"
      by (cases "CodePointAt c cs") auto
    with False "2.prems"(1) obtain r' where u: "\<not> u"
      and r': "Encode (drop n (c # cs)) extra = Inr r'"
      and r: "r = concat (map percent_octet (utf8_encode cp)) @ r'"
      by (auto simp add: res_prepend_eq_Inr split: if_splits)
    have IH: "length (filter (\<lambda>x. x \<in> set (alwaysUnescaped @ extra)) (drop n (c # cs))) +
        3 * length (filter (\<lambda>x. x \<notin> set (alwaysUnescaped @ extra)) (drop n (c # cs))) \<le> length r' \<and>
      length r' \<le> length (filter (\<lambda>x. x \<in> set (alwaysUnescaped @ extra)) (drop n (c # cs))) +
        9 * length (filter (\<lambda>x. x \<notin> set (alwaysUnescaped @ extra)) (drop n (c # cs)))"
      using "2.IH"(2) [OF False cpa [symmetric] refl u r' "2.prems"(2)] .
    have "\<forall>x \<in> set (alwaysUnescaped @ extra). \<not> is_trailing_surrogate x"
      using unescaped_not_surrogate "2.prems"(2) by blast
    moreover have "CodePointAt c cs = (cp, n, False)" using cpa u by simp
    ultimately have f: "length (filter (\<lambda>x. x \<in> set (alwaysUnescaped @ extra)) (c # cs)) =
        length (filter (\<lambda>x. x \<in> set (alwaysUnescaped @ extra)) (drop n (c # cs))) \<and>
      length (filter (\<lambda>x. x \<notin> set (alwaysUnescaped @ extra)) (c # cs)) =
        n + length (filter (\<lambda>x. x \<notin> set (alwaysUnescaped @ extra)) (drop n (c # cs)))"
      using False by (intro CodePointAt_consumed)
    have "n \<le> length (utf8_encode cp) \<and> length (utf8_encode cp) \<le> 3 * n"
      using cpa u CodePointAt_utf8_length by auto
    moreover have "length r = 3 * length (utf8_encode cp) + length r'"
      by (simp add: r length_percent_octets)
    ultimately show ?thesis using IH f by linarith
  qed
qed

subsection \<open>Properties of encodeURIComponent\<close>

text \<open>
  The four facts the page relies on when it builds the WhatsApp link: the round trip,
  the exact error condition, the alphabet of the result and its length. Each comes with
  a small evaluated instance.
\<close>

text \<open>
  \<open>encodeURIComponent\<close> is inverted by \<open>decodeURIComponent\<close>: for every string
  without unpaired surrogates, decoding the encoding gives the string back.
\<close>

lemma encodeURIComponent_roundtrip:
  "wf_utf16 s \<Longrightarrow> res_bind (encodeURIComponent s) decodeURIComponent = Inr s"
proof -
  assume wf: "wf_utf16 s"
  then obtain r where r: "Encode s [] = Inr r" using wf_utf16_Encode by fastforce
  then have "Decode r [] = Inr s" using Encode_Decode by simp
  with r show ?thesis by (simp add: encodeURIComponent_def decodeURIComponent_def)
qed

lemma encodeURIComponent_roundtrip_example:
  "wf_utf16 [0x48, 0x20, 0xD83D, 0xDE00, 0x2013, 0x25] \<and>
   res_bind (encodeURIComponent [0x48, 0x20, 0xD83D, 0xDE00, 0x2013, 0x25]) decodeURIComponent
     = Inr [0x48, 0x20, 0xD83D, 0xDE00, 0x2013, 0x25]"
proof -
  have wf: "wf_utf16 [0x48, 0x20, 0xD83D, 0xDE00, 0x2013, 0x25]"
    by (simp add: is_leading_surrogate_def is_trailing_surrogate_def)
  show ?thesis using wf encodeURIComponent_roundtrip [OF wf] by simp
qed

text \<open>
  \<open>encodeURIComponent\<close> throws \<open>URIError\<close> exactly on the strings that contain an
  unpaired surrogate, and returns a string on every other input.
\<close>

lemma encodeURIComponent_URIError_iff:
  "encodeURIComponent s = Inl URIError \<longleftrightarrow> \<not> wf_utf16 s"
proof
  assume "encodeURIComponent s = Inl URIError"
  then show "\<not> wf_utf16 s"
    using wf_utf16_Encode [of s "[]"] by (auto simp add: encodeURIComponent_def)
next
  assume nwf: "\<not> wf_utf16 s"
  show "encodeURIComponent s = Inl URIError"
  proof (cases "Encode s []")
    case (Inl e)
    then show ?thesis by (cases e) (simp add: encodeURIComponent_def)
  next
    case (Inr r)
    then show ?thesis using Encode_wf_utf16 [of s "[]" r] nwf by simp
  qed
qed

text \<open>
  Every code unit of a result of \<open>encodeURIComponent\<close> is an unescaped character
  (ASCII letter, digit or one of \<open>-_.!~*'()\<close>), a \<open>"%"\<close>, or an uppercase
  hexadecimal digit.
\<close>

lemma encodeURIComponent_alphabet:
  "encodeURIComponent s = Inr r \<Longrightarrow> \<forall>x \<in> set r. x \<in> set alwaysUnescaped \<or> x = 0x25 \<or> is_upper_hex x"
  using Encode_alphabet [of s "[]" r] by (simp add: encodeURIComponent_def)

lemma encodeURIComponent_alphabet_example:
  "encodeURIComponent [0x20, 0xE9] = Inr (js ''%20%C3%A9'') \<and>
   (\<forall>x \<in> set (js ''%20%C3%A9''). x \<in> set alwaysUnescaped \<or> x = 0x25 \<or> is_upper_hex x)"
proof -
  have e: "encodeURIComponent [0x20, 0xE9] = Inr (js ''%20%C3%A9'')"
    by (simp add: encodeURIComponent_def alwaysUnescaped_def js_def CodePointAt_def utf8_encode_def
        percent_octet_def hex_digit_def is_leading_surrogate_def is_trailing_surrogate_def)
  show ?thesis using e encodeURIComponent_alphabet [OF e] by simp
qed

text \<open>
  \<open>encodeURIComponent\<close> never shortens a string and at most multiplies its length
  by nine (a code unit of the Basic Multilingual Plane above U+07FF becomes three
  escapes of three code units each).
\<close>

lemma encodeURIComponent_length:
  "encodeURIComponent s = Inr r \<Longrightarrow> length s \<le> length r \<and> length r \<le> 9 * length s"
  using Encode_length [of s "[]" r] by (simp add: encodeURIComponent_def)

lemma encodeURIComponent_length_escaped:
  "encodeURIComponent s = Inr r \<Longrightarrow>
   length (filter (\<lambda>x. x \<in> set alwaysUnescaped) s) + 3 * length (filter (\<lambda>x. x \<notin> set alwaysUnescaped) s) \<le> length r \<and>
   length r \<le> length (filter (\<lambda>x. x \<in> set alwaysUnescaped) s) + 9 * length (filter (\<lambda>x. x \<notin> set alwaysUnescaped) s)"
  using Encode_length_escaped [of s "[]" r] by (simp add: encodeURIComponent_def)

lemma encodeURIComponent_length_example:
  "encodeURIComponent [0x2013] = Inr (js ''%E2%80%93'') \<and>
   length [0x2013 :: code_unit] \<le> length (js ''%E2%80%93'') \<and> length (js ''%E2%80%93'') \<le> 9 * length [0x2013 :: code_unit]"
proof -
  have e: "encodeURIComponent [0x2013] = Inr (js ''%E2%80%93'')"
    by (simp add: encodeURIComponent_def alwaysUnescaped_def js_def CodePointAt_def utf8_encode_def
        percent_octet_def hex_digit_def is_leading_surrogate_def is_trailing_surrogate_def)
  show ?thesis using e encodeURIComponent_length [OF e] by simp
qed

end
