(* ===== verification/UserAgent.thy ===== *)
theory UserAgent
  imports Prelude
begin

text \<open>
  The device check of \<open>handleWhatsAppClick\<close> (\<open>src/app/page.tsx\<close> line 283):
  \<open>/iPhone|iPad|iPod|Android/i.test(navigator.userAgent)\<close>. The regular expression is
  a disjunction of literal alternatives with the \<open>i\<close> flag; its semantics is modelled
  from ECMA-262: \<open>RegExp.prototype.test\<close> calls \<open>RegExpBuiltinExec\<close> (22.2.7.2),
  whose loop tries the matcher at \<open>lastIndex = 0, 1, \<dots>\<close> up to the length of the
  string; the matcher of a \<open>Disjunction\<close> tries its alternatives left to right
  (22.2.2.3), and each \<open>PatternCharacter\<close> compares canonicalised code units
  (\<open>CharacterSetMatcher\<close> and \<open>Canonicalize\<close>, 22.2.2.7.3).
\<close>

record RegExp =
  alternatives :: "js_string list"
  ignoreCase :: bool

text \<open>
  \<open>Canonicalize(rer, ch)\<close> without the \<open>u\<close> or \<open>v\<close> flag: the upper case of \<open>ch\<close> when
  it is one code unit and does not turn a non-ASCII unit into an ASCII one. It is
  computed exactly on ASCII; on a unit of 0x80 or more it is left unchanged, which
  agrees with the spec on every comparison with an ASCII pattern character, since the
  spec never canonicalises such a unit to an ASCII one.
\<close>

definition Canonicalize :: "RegExp \<Rightarrow> code_unit \<Rightarrow> code_unit" where
  "Canonicalize rer ch =
     (if ignoreCase rer \<and> 0x61 \<le> unat ch \<and> unat ch \<le> 0x7A then ch - 0x20 else ch)"

text \<open>A sequence of pattern characters matched from the current position.\<close>

fun match_alternative :: "RegExp \<Rightarrow> js_string \<Rightarrow> js_string \<Rightarrow> bool" where
  "match_alternative rer [] input = True"
| "match_alternative rer (a # as) [] = False"
| "match_alternative rer (a # as) (ch # input) =
     (Canonicalize rer ch = Canonicalize rer a \<and> match_alternative rer as input)"

text \<open>The disjunction: the first alternative that matches gives the end of the match.\<close>

fun match_disjunction :: "RegExp \<Rightarrow> js_string list \<Rightarrow> js_string \<Rightarrow> nat option" where
  "match_disjunction rer [] input = None"
| "match_disjunction rer (alt # alts) input =
     (if match_alternative rer alt input then Some (length alt) else match_disjunction rer alts input)"

text \<open>
  \<open>RegExpBuiltinExec\<close> for a regular expression without the \<open>g\<close> and \<open>y\<close> flags: the
  match is tried at \<open>lastIndex\<close>, which advances by one code unit after a failure, and
  the search fails once \<open>lastIndex\<close> exceeds the length. The result is the start and
  end index of the match.
\<close>

function RegExpBuiltinExec :: "RegExp \<Rightarrow> js_string \<Rightarrow> nat \<Rightarrow> (nat \<times> nat) option" where
  "RegExpBuiltinExec rer S lastIndex =
     (if length S < lastIndex then None
      else (case match_disjunction rer (alternatives rer) (drop lastIndex S) of
              Some e \<Rightarrow> Some (lastIndex, lastIndex + e)
            | None \<Rightarrow> RegExpBuiltinExec rer S (lastIndex + 1)))"
  by pat_completeness auto

termination RegExpBuiltinExec
  by (relation "measure (\<lambda>(rer, S, lastIndex). Suc (length S) - lastIndex)") auto

declare RegExpBuiltinExec.simps [simp del]

definition RegExp_test :: "RegExp \<Rightarrow> js_string \<Rightarrow> bool" where
  "RegExp_test rer S \<longleftrightarrow> RegExpBuiltinExec rer S 0 \<noteq> None"

text \<open>The literal \<open>/iPhone|iPad|iPod|Android/i\<close> and the test of line 283.\<close>

definition mobileRegExp :: RegExp where
  "mobileRegExp = \<lparr>alternatives = [js ''iPhone'', js ''iPad'', js ''iPod'', js ''Android''],
                   ignoreCase = True\<rparr>"

definition isMobile :: "js_string \<Rightarrow> bool" where
  "isMobile userAgent \<longleftrightarrow> RegExp_test mobileRegExp userAgent"

subsection \<open>The search finds a match exactly when one exists\<close>

lemma sublist_iff_prefix_drop:
  "sublist p xs \<longleftrightarrow> (\<exists>k \<le> length xs. prefix p (drop k xs))"
proof
  assume "sublist p xs"
  then obtain ps ss where xs: "xs = ps @ p @ ss" by (auto simp add: sublist_def)
  then have "prefix p (drop (length ps) xs)" by simp
  moreover have "length ps \<le> length xs" using xs by simp
  ultimately show "\<exists>k \<le> length xs. prefix p (drop k xs)" by blast
next
  assume "\<exists>k \<le> length xs. prefix p (drop k xs)"
  then obtain k ss where "drop k xs = p @ ss" by (auto simp add: prefix_def)
  then have "xs = take k xs @ p @ ss" by (metis append_take_drop_id)
  then show "sublist p xs" by (metis sublist_def)
qed

lemma match_alternative_prefix:
  "match_alternative rer alt input \<longleftrightarrow> prefix (map (Canonicalize rer) alt) (map (Canonicalize rer) input)"
  by (induction rer alt input rule: match_alternative.induct) auto

lemma match_disjunction_None:
  "match_disjunction rer alts input = None \<longleftrightarrow> \<not> list_ex (\<lambda>alt. match_alternative rer alt input) alts"
  by (induction alts) auto

lemma RegExpBuiltinExec_None:
  "RegExpBuiltinExec rer S i = None \<longleftrightarrow>
   (\<forall>k. i \<le> k \<and> k \<le> length S \<longrightarrow> match_disjunction rer (alternatives rer) (drop k S) = None)"
proof (induction rer S i rule: RegExpBuiltinExec.induct)
  case (1 rer S lastIndex)
  show ?case
  proof (cases "length S < lastIndex")
    case True
    then show ?thesis by (auto simp add: RegExpBuiltinExec.simps [of rer S lastIndex])
  next
    case False
    show ?thesis
    proof (cases "match_disjunction rer (alternatives rer) (drop lastIndex S)")
      case None
      have "(\<forall>k. lastIndex \<le> k \<and> k \<le> length S \<longrightarrow> P k)
            \<longleftrightarrow> (\<forall>k. Suc lastIndex \<le> k \<and> k \<le> length S \<longrightarrow> P k)"
        if "P lastIndex" for P
      proof
        assume "\<forall>k. lastIndex \<le> k \<and> k \<le> length S \<longrightarrow> P k"
        then show "\<forall>k. Suc lastIndex \<le> k \<and> k \<le> length S \<longrightarrow> P k" by auto
      next
        assume a: "\<forall>k. Suc lastIndex \<le> k \<and> k \<le> length S \<longrightarrow> P k"
        show "\<forall>k. lastIndex \<le> k \<and> k \<le> length S \<longrightarrow> P k"
        proof (intro allI impI)
          fix k
          assume k: "lastIndex \<le> k \<and> k \<le> length S"
          show "P k"
          proof (cases "k = lastIndex")
            case True
            with that show ?thesis by simp
          next
            case False
            with k a show ?thesis by auto
          qed
        qed
      qed
      from this [of "\<lambda>k. match_disjunction rer (alternatives rer) (drop k S) = None"] None
      have "(\<forall>k. lastIndex \<le> k \<and> k \<le> length S \<longrightarrow> match_disjunction rer (alternatives rer) (drop k S) = None)
            \<longleftrightarrow> (\<forall>k. Suc lastIndex \<le> k \<and> k \<le> length S \<longrightarrow> match_disjunction rer (alternatives rer) (drop k S) = None)"
        by simp
      with "1.IH" [OF False None] False None show ?thesis
        by (simp add: RegExpBuiltinExec.simps [of rer S lastIndex])
    next
      case (Some e)
      with False show ?thesis by (auto simp add: RegExpBuiltinExec.simps [of rer S lastIndex])
    qed
  qed
qed

lemma RegExp_test_iff:
  "RegExp_test rer S \<longleftrightarrow>
   list_ex (\<lambda>alt. sublist (map (Canonicalize rer) alt) (map (Canonicalize rer) S)) (alternatives rer)"
proof -
  have "RegExp_test rer S \<longleftrightarrow>
        (\<exists>k \<le> length S. list_ex (\<lambda>alt. match_alternative rer alt (drop k S)) (alternatives rer))"
    unfolding RegExp_test_def RegExpBuiltinExec_None by (auto simp add: match_disjunction_None)
  also have "\<dots> \<longleftrightarrow> (\<exists>k \<le> length S. list_ex (\<lambda>alt. prefix (map (Canonicalize rer) alt)
                        (drop k (map (Canonicalize rer) S))) (alternatives rer))"
    by (simp add: match_alternative_prefix drop_map)
  also have "\<dots> \<longleftrightarrow> list_ex (\<lambda>alt. sublist (map (Canonicalize rer) alt) (map (Canonicalize rer) S)) (alternatives rer)"
    by (auto simp add: list_ex_iff sublist_iff_prefix_drop)
  finally show ?thesis .
qed

subsection \<open>The device check\<close>

text \<open>
  C8: the device check holds exactly when the user-agent string, read case-insensitively
  (ASCII letters upper-cased), contains one of \<open>IPHONE\<close>, \<open>IPAD\<close>, \<open>IPOD\<close>,
  \<open>ANDROID\<close> as a contiguous substring, anywhere in the string.
\<close>

theorem isMobile_iff:
  "isMobile userAgent \<longleftrightarrow>
   list_ex (\<lambda>p. sublist (js p) (map (Canonicalize mobileRegExp) userAgent)) [''IPHONE'', ''IPAD'', ''IPOD'', ''ANDROID'']"
proof -
  have "map (map (Canonicalize mobileRegExp)) (alternatives mobileRegExp) = map js [''IPHONE'', ''IPAD'', ''IPOD'', ''ANDROID'']"
    by (simp add: mobileRegExp_def Canonicalize_def js_def)
  have "isMobile userAgent \<longleftrightarrow>
        list_ex (\<lambda>a. sublist a (map (Canonicalize mobileRegExp) userAgent))
          (map (map (Canonicalize mobileRegExp)) (alternatives mobileRegExp))"
    by (simp add: isMobile_def RegExp_test_iff list_ex_map_conv)
  also have "\<dots> \<longleftrightarrow> list_ex (\<lambda>p. sublist (js p) (map (Canonicalize mobileRegExp) userAgent))
                        [''IPHONE'', ''IPAD'', ''IPOD'', ''ANDROID'']"
    unfolding \<open>map (map (Canonicalize mobileRegExp)) (alternatives mobileRegExp) = _\<close>
    by (simp only: list_ex_map_conv)
  finally show ?thesis .
qed

end
