(* ===== verification/Handlers.thy ===== *)
theory Handlers
  imports Browser Uri UserAgent
begin

text \<open>
  The click handlers of \<open>src/app/page.tsx\<close>: \<open>handleWhatsAppClick\<close> (lines 278--291),
  the \<open>mailto:\<close> buttons (lines 320 and 360), the two resume downloads
  (lines 386--408) and the Discord and Instagram buttons (lines 514 and 521).
  A handler maps the browser state to the state it leaves behind and the exception it
  throws, if any: React reports an exception thrown by an event handler and goes on
  dispatching later events, and the effects performed before the throw stay.
\<close>

datatype exception = URIErrorException | NotFoundErrorException

type_synonym outcome = "Browser \<times> exception option"

subsection \<open>WhatsApp\<close>

definition phoneNumber :: js_string where
  "phoneNumber = js ''917373675313''"

definition message :: js_string where
  "message = js ''Hi, I'd like to connect with you!''"

text \<open>
  The template literals of lines 286--288: the scheme and path chosen by the device
  check, the phone number, and the URI-encoded message; the encoding may throw.
\<close>

definition whatsappUrl :: "bool \<Rightarrow> js_string \<Rightarrow> js_string \<Rightarrow> uri_error + js_string" where
  "whatsappUrl mobile phone msg =
     (if mobile
      then res_prepend (js ''whatsapp://send?phone='' @ phone @ js ''&text='') (encodeURIComponent msg)
      else res_prepend (js ''https://web.whatsapp.com/send?phone='' @ phone @ js ''&text='')
             (encodeURIComponent msg))"

definition handleWhatsAppClick :: "js_string \<Rightarrow> Browser \<Rightarrow> outcome" where
  "handleWhatsAppClick userAgent b =
     (let mobile = isMobile userAgent in
      case whatsappUrl mobile phoneNumber message of
        Inl URIError \<Rightarrow> (b, Some URIErrorException)
      | Inr url \<Rightarrow> (window_open url (js ''_blank'') b, None))"

subsection \<open>Mail, downloads and social links\<close>

definition mailtoClick :: "Browser \<Rightarrow> outcome" where
  "mailtoClick b = (set_location (js ''mailto:fahadguy8@gmail.com'') b, None)"

text \<open>
  The body shared by the two resume buttons: create an anchor, set its \<open>href\<close> and
  \<open>download\<close>, attach it to the body, click it and detach it again.
\<close>

definition resumeDownload :: "js_string \<Rightarrow> js_string \<Rightarrow> Browser \<Rightarrow> outcome" where
  "resumeDownload path filename b =
     (let (link, b1) = createElement ''a'' b;
          b2 = set_href link path b1;
          b3 = set_download link filename b2;
          b4 = appendChild link b3;
          b5 = click link b4
      in case removeChild link b5 of
           Inl NotFoundError \<Rightarrow> (b5, Some NotFoundErrorException)
         | Inr b6 \<Rightarrow> (b6, None))"

definition atsResumePath :: js_string where
  "atsResumePath = js ''/Shaik_Mohamed_Fahad_Resume_ATS.pdf''"

definition atsResumeFile :: js_string where
  "atsResumeFile = js ''Shaik_Mohamed_Fahad_Resume_ATS.pdf''"

definition creativeResumePath :: js_string where
  "creativeResumePath = js ''/Shaik_Mohamed_Fahad_Resume.pdf''"

definition creativeResumeFile :: js_string where
  "creativeResumeFile = js ''Shaik_Mohamed_Fahad_Resume.pdf''"

definition downloadATSResume :: "Browser \<Rightarrow> outcome" where
  "downloadATSResume b = resumeDownload atsResumePath atsResumeFile b"

definition downloadCreativeResume :: "Browser \<Rightarrow> outcome" where
  "downloadCreativeResume b = resumeDownload creativeResumePath creativeResumeFile b"

definition openDiscord :: "Browser \<Rightarrow> outcome" where
  "openDiscord b = (window_open (js ''https://discord.gg/MGr2ZemqyE'') (js ''_blank'') b, None)"

definition openInstagram :: "Browser \<Rightarrow> outcome" where
  "openInstagram b = (window_open (js ''https://www.instagram.com/i_am_smf_/'') (js ''_blank'') b, None)"

subsection \<open>Clicks on the page\<close>

text \<open>The buttons wired to a handler, and a sequence of clicks on them.\<close>

datatype action = ClickEmail | ClickATSResume | ClickCreativeResume | ClickDiscord
  | ClickInstagram | ClickWhatsApp

fun dispatch :: "js_string \<Rightarrow> action \<Rightarrow> Browser \<Rightarrow> outcome" where
  "dispatch ua ClickEmail b = mailtoClick b"
| "dispatch ua ClickATSResume b = downloadATSResume b"
| "dispatch ua ClickCreativeResume b = downloadCreativeResume b"
| "dispatch ua ClickDiscord b = openDiscord b"
| "dispatch ua ClickInstagram b = openInstagram b"
| "dispatch ua ClickWhatsApp b = handleWhatsAppClick ua b"

fun run_clicks :: "js_string \<Rightarrow> action list \<Rightarrow> Browser \<Rightarrow> Browser \<times> exception list" where
  "run_clicks ua [] b = (b, [])"
| "run_clicks ua (a # as) b =
     (case dispatch ua a b of
        (b', e) \<Rightarrow> (case run_clicks ua as b' of (b'', es) \<Rightarrow> (b'', case e of None \<Rightarrow> es | Some x \<Rightarrow> x # es)))"

subsection \<open>What the clicks promise\<close>

text \<open>
  The effect of each click as the spec states it: the windows it opens (URL and target),
  the downloads it starts (path and file name), and the start of the WhatsApp link.
\<close>

fun click_tabs :: "js_string \<Rightarrow> action \<Rightarrow> (js_string \<times> js_string) list" where
  "click_tabs ua ClickDiscord = [(js ''https://discord.gg/MGr2ZemqyE'', js ''_blank'')]"
| "click_tabs ua ClickInstagram = [(js ''https://www.instagram.com/i_am_smf_/'', js ''_blank'')]"
| "click_tabs ua ClickWhatsApp =
     [((if isMobile ua then js ''whatsapp://send?phone=917373675313&text=''
        else js ''https://web.whatsapp.com/send?phone=917373675313&text='')
       @ js ''Hi%2C%20I'd%20like%20to%20connect%20with%20you!'', js ''_blank'')]"
| "click_tabs ua _ = []"

fun click_downloads :: "action \<Rightarrow> (js_string \<times> js_string) list" where
  "click_downloads ClickATSResume = [(js ''/Shaik_Mohamed_Fahad_Resume_ATS.pdf'', js ''Shaik_Mohamed_Fahad_Resume_ATS.pdf'')]"
| "click_downloads ClickCreativeResume = [(js ''/Shaik_Mohamed_Fahad_Resume.pdf'', js ''Shaik_Mohamed_Fahad_Resume.pdf'')]"
| "click_downloads _ = []"

definition whatsappPrefix :: "bool \<Rightarrow> js_string" where
  "whatsappPrefix mobile = (if mobile then js ''whatsapp://send?phone='' else js ''https://web.whatsapp.com/send?phone='')"

subsection \<open>The WhatsApp link\<close>

lemma whatsappUrl_prefix:
  "whatsappUrl mobile phone msg = res_prepend (whatsappPrefix mobile @ phone @ js ''&text='') (encodeURIComponent msg)"
  by (simp add: whatsappUrl_def whatsappPrefix_def)

lemma encodeURIComponent_message:
  "encodeURIComponent message = Inr (js ''Hi%2C%20I'd%20like%20to%20connect%20with%20you!'')"
  by (simp add: message_def encodeURIComponent_def alwaysUnescaped_def js_def CodePointAt_def
      utf8_encode_def percent_octet_def hex_digit_def is_leading_surrogate_def is_trailing_surrogate_def)

text \<open>No code unit of an encoded component is a delimiter of a query string.\<close>

lemma encodeURIComponent_no_delims:
  assumes "encodeURIComponent msg = Inr t"
  shows "\<forall>x \<in> set t. x \<notin> set (js ''&#=+ '')"
proof -
  have "\<forall>x \<in> set t. x \<in> set alwaysUnescaped \<or> x = 0x25 \<or> is_upper_hex x"
    using assms by (rule encodeURIComponent_alphabet)
  moreover have "\<forall>x \<in> set alwaysUnescaped. x \<notin> set (js ''&#=+ '')"
    by (simp add: alwaysUnescaped_def js_def)
  moreover have "x \<notin> set (js ''&#=+ '')" if "x = 0x25 \<or> is_upper_hex x" for x
    using that by (auto simp add: js_def is_upper_hex_def)
  ultimately show ?thesis by blast
qed

text \<open>
  C4: the text parameter of the WhatsApp link decodes back to the message: for
  every message without unpaired surrogates, every device class and phone number, the
  link is the scheme prefix, the phone number, \<open>&text=\<close> and a string that contains
  no \<open>&\<close> and no \<open>#\<close>, so that it is the whole \<open>text\<close> parameter, and that
  \<open>decodeURIComponent\<close> maps to the message.
\<close>

theorem whatsappUrl_text_roundtrip:
  "wf_utf16 msg \<Longrightarrow>
   \<exists>t. whatsappUrl mobile phone msg = Inr (whatsappPrefix mobile @ phone @ js ''&text='' @ t) \<and>
       (\<forall>x \<in> set t. x \<notin> set (js ''&#'')) \<and> decodeURIComponent t = Inr msg"
proof -
  assume wf: "wf_utf16 msg"
  then have ne: "encodeURIComponent msg \<noteq> Inl URIError"
    by (simp add: encodeURIComponent_URIError_iff)
  obtain t where t: "encodeURIComponent msg = Inr t"
  proof (cases "encodeURIComponent msg")
    case (Inl e)
    then show ?thesis using ne by (cases e) simp
  next
    case (Inr t)
    then show ?thesis by (rule that)
  qed
  have "decodeURIComponent t = Inr msg" using t encodeURIComponent_roundtrip [OF wf] by simp
  moreover have "\<forall>x \<in> set t. x \<notin> set (js ''&#'')"
    using encodeURIComponent_no_delims [OF t] by (simp add: js_def)
  ultimately show ?thesis using t by (simp add: whatsappUrl_prefix)
qed

theorem whatsappUrl_text_roundtrip_witness:
  "wf_utf16 message \<and>
   (\<exists>t. whatsappUrl True phoneNumber message = Inr (whatsappPrefix True @ phoneNumber @ js ''&text='' @ t) \<and>
        (\<forall>x \<in> set t. x \<notin> set (js ''&#'')) \<and> decodeURIComponent t = Inr message)"
proof -
  have wf: "wf_utf16 message"
    by (simp add: message_def js_def is_leading_surrogate_def is_trailing_surrogate_def)
  show ?thesis using wf whatsappUrl_text_roundtrip [OF wf, of True phoneNumber] by simp
qed

text \<open>
  C9: building the WhatsApp link throws \<open>URIError\<close> exactly when the message
  contains an unpaired surrogate.
\<close>

theorem whatsappUrl_URIError_iff:
  "whatsappUrl mobile phone msg = Inl URIError \<longleftrightarrow> \<not> wf_utf16 msg"
  by (simp add: whatsappUrl_prefix res_prepend_eq_Inl encodeURIComponent_URIError_iff)

text \<open>
  C10: the text parameter of a WhatsApp link contains none of \<open>&\<close>, \<open>#\<close>,
  \<open>=\<close>, \<open>+\<close> or a space, so no message can add a query parameter or a fragment to
  the link.
\<close>

theorem whatsappUrl_query_safe:
  "whatsappUrl mobile phone msg = Inr url \<Longrightarrow>
   \<exists>t. url = whatsappPrefix mobile @ phone @ js ''&text='' @ t \<and> (\<forall>x \<in> set t. x \<notin> set (js ''&#=+ ''))"
proof -
  assume "whatsappUrl mobile phone msg = Inr url"
  then obtain t where t: "encodeURIComponent msg = Inr t" and u: "url = whatsappPrefix mobile @ phone @ js ''&text='' @ t"
    by (auto simp add: whatsappUrl_prefix res_prepend_eq_Inr)
  show ?thesis using u encodeURIComponent_no_delims [OF t] by blast
qed

theorem whatsappUrl_query_safe_witness:
  "whatsappUrl False phoneNumber (js ''a&b'') = Inr (whatsappPrefix False @ phoneNumber @ js ''&text=a%26b'') \<and>
   (\<exists>t. whatsappPrefix False @ phoneNumber @ js ''&text=a%26b'' = whatsappPrefix False @ phoneNumber @ js ''&text='' @ t \<and>
        (\<forall>x \<in> set t. x \<notin> set (js ''&#=+ '')))"
proof -
  have e: "whatsappUrl False phoneNumber (js ''a&b'') = Inr (whatsappPrefix False @ phoneNumber @ js ''&text=a%26b'')"
    by (simp add: whatsappUrl_prefix encodeURIComponent_def alwaysUnescaped_def js_def CodePointAt_def
        utf8_encode_def percent_octet_def hex_digit_def is_leading_surrogate_def is_trailing_surrogate_def)
  show ?thesis using e whatsappUrl_query_safe [OF e] by simp
qed

text \<open>
  C20: the length of the WhatsApp link's text parameter: every code unit of the message
  in \<open>encodeURIComponent\<close>'s unescaped set (letters, digits and \<open>-_.!~*'()\<close>) is
  one code unit of it, and every other code unit becomes a percent escape of three to nine
  code units.
\<close>

theorem whatsappUrl_length:
  "whatsappUrl mobile phone msg = Inr url \<Longrightarrow>
   \<exists>t. url = whatsappPrefix mobile @ phone @ js ''&text='' @ t \<and>
     length (filter (\<lambda>x. x \<in> set alwaysUnescaped) msg) + 3 * length (filter (\<lambda>x. x \<notin> set alwaysUnescaped) msg)
       \<le> length t \<and>
     length t \<le> length (filter (\<lambda>x. x \<in> set alwaysUnescaped) msg) + 9 * length (filter (\<lambda>x. x \<notin> set alwaysUnescaped) msg)"
proof -
  assume "whatsappUrl mobile phone msg = Inr url"
  then obtain t where t: "encodeURIComponent msg = Inr t" and u: "url = whatsappPrefix mobile @ phone @ js ''&text='' @ t"
    by (auto simp add: whatsappUrl_prefix res_prepend_eq_Inr)
  show ?thesis using u encodeURIComponent_length_escaped [OF t] by blast
qed

theorem whatsappUrl_length_witness:
  "whatsappUrl False phoneNumber (js ''a b'') = Inr (whatsappPrefix False @ phoneNumber @ js ''&text=a%20b'') \<and>
   (\<exists>t. whatsappPrefix False @ phoneNumber @ js ''&text=a%20b'' = whatsappPrefix False @ phoneNumber @ js ''&text='' @ t \<and>
     length (filter (\<lambda>x. x \<in> set alwaysUnescaped) (js ''a b'')) + 3 * length (filter (\<lambda>x. x \<notin> set alwaysUnescaped) (js ''a b''))
       \<le> length t \<and>
     length t \<le> length (filter (\<lambda>x. x \<in> set alwaysUnescaped) (js ''a b'')) + 9 * length (filter (\<lambda>x. x \<notin> set alwaysUnescaped) (js ''a b'')))"
proof -
  have e: "whatsappUrl False phoneNumber (js ''a b'') = Inr (whatsappPrefix False @ phoneNumber @ js ''&text=a%20b'')"
    by (simp add: whatsappUrl_prefix encodeURIComponent_def alwaysUnescaped_def js_def CodePointAt_def
        utf8_encode_def percent_octet_def hex_digit_def is_leading_surrogate_def is_trailing_surrogate_def)
  show ?thesis using e whatsappUrl_length [OF e] by simp
qed

subsection \<open>The handlers\<close>

text \<open>The link the handler builds from its constants.\<close>

lemma whatsappUrl_page_link:
  "whatsappUrl mobile phoneNumber message =
     Inr ((if mobile then js ''whatsapp://send?phone=917373675313&text=''
           else js ''https://web.whatsapp.com/send?phone=917373675313&text='')
          @ js ''Hi%2C%20I'd%20like%20to%20connect%20with%20you!'')"
  by (simp add: whatsappUrl_def encodeURIComponent_message phoneNumber_def flip: js_append)

text \<open>
  C1: a click on the WhatsApp button never throws and opens exactly one new
  window (target \<open>_blank\<close>), at \<open>whatsapp://send?phone=917373675313&text=\<close> on a
  mobile user agent and at \<open>https://web.whatsapp.com/send?phone=917373675313&text=\<close>
  otherwise, followed by the encoded greeting
  \<open>Hi%2C%20I'd%20like%20to%20connect%20with%20you!\<close>; nothing else of the browser
  changes.
\<close>

theorem handleWhatsAppClick_effect:
  "handleWhatsAppClick ua b =
     (window_open ((if isMobile ua then js ''whatsapp://send?phone=917373675313&text=''
                    else js ''https://web.whatsapp.com/send?phone=917373675313&text='')
                   @ js ''Hi%2C%20I'd%20like%20to%20connect%20with%20you!'') (js ''_blank'') b, None)"
  by (simp add: handleWhatsAppClick_def whatsappUrl_page_link)

lemma wf_browser_fresh: "wf_browser b \<Longrightarrow> next_node b \<notin> set (body b)"
  by (auto simp add: wf_browser_def)

text \<open>
  A resume download when the fresh node is not yet a child of the body, which holds in a
  well-formed document.
\<close>

lemma resumeDownload_fresh:
  "next_node b \<notin> set (body b) \<Longrightarrow>
   resumeDownload p f b =
     (b\<lparr>downloads := downloads b @ [(p, f)],
        elements := (elements b)(next_node b \<mapsto> \<lparr>tagName = ''a'', href = Some p, download = Some f\<rparr>),
        next_node := Suc (next_node b)\<rparr>, None)"
  by (simp add: resumeDownload_def createElement_def set_href_def set_download_def appendChild_def
      click_def removeChild_def remove1_append)

text \<open>
  C7: in a well-formed document, a resume download never throws
  \<open>NotFoundError\<close>: it starts exactly one download of the given path under the given
  file name, leaves the body's children as they were (the temporary anchor is removed
  again) and only adds the anchor to the element store.
\<close>

theorem resumeDownload_effect:
  assumes "wf_browser b"
  shows "resumeDownload p f b =
           (b\<lparr>downloads := downloads b @ [(p, f)],
              elements := (elements b)(next_node b \<mapsto> \<lparr>tagName = ''a'', href = Some p, download = Some f\<rparr>),
              next_node := Suc (next_node b)\<rparr>, None)"
  using wf_browser_fresh [OF assms] by (rule resumeDownload_fresh)

lemma wf_initial_browser: "wf_browser (initial_browser url)"
  by (simp add: wf_browser_def initial_browser_def)

theorem resumeDownload_effect_witness:
  "wf_browser (initial_browser []) \<and>
   resumeDownload atsResumePath atsResumeFile (initial_browser []) =
     ((initial_browser [])\<lparr>downloads := downloads (initial_browser []) @ [(atsResumePath, atsResumeFile)],
        elements := (elements (initial_browser []))(next_node (initial_browser []) \<mapsto>
          \<lparr>tagName = ''a'', href = Some atsResumePath, download = Some atsResumeFile\<rparr>),
        next_node := Suc (next_node (initial_browser []))\<rparr>, None)"
  using wf_initial_browser resumeDownload_effect [OF wf_initial_browser] by simp

lemma wf_browser_resumeDownload: "wf_browser b \<Longrightarrow> wf_browser (fst (resumeDownload p f b))"
  by (simp add: resumeDownload_fresh wf_browser_fresh) (auto simp add: wf_browser_def)

lemma wf_browser_window_open [simp]: "wf_browser (window_open u t b) = wf_browser b"
  by (simp add: wf_browser_def window_open_def)

lemma wf_browser_set_location [simp]: "wf_browser (set_location u b) = wf_browser b"
  by (simp add: wf_browser_def set_location_def)

lemma dispatch_effect:
  assumes "wf_browser b" "dispatch ua a b = (b', e)"
  shows "e = None \<and> wf_browser b' \<and> opened b' = opened b @ click_tabs ua a \<and>
         downloads b' = downloads b @ click_downloads a \<and> body b' = body b \<and>
         location_href b' = (if a = ClickEmail then js ''mailto:fahadguy8@gmail.com'' else location_href b)"
proof (cases a)
  case ClickEmail
  then show ?thesis using assms by (auto simp add: mailtoClick_def set_location_def wf_browser_def)
next
  case ClickATSResume
  then show ?thesis using assms wf_browser_resumeDownload [OF assms(1)]
    by (auto simp add: downloadATSResume_def resumeDownload_fresh wf_browser_fresh atsResumePath_def atsResumeFile_def)
next
  case ClickCreativeResume
  then show ?thesis using assms wf_browser_resumeDownload [OF assms(1)]
    by (auto simp add: downloadCreativeResume_def resumeDownload_fresh wf_browser_fresh creativeResumePath_def creativeResumeFile_def)
next
  case ClickDiscord
  then show ?thesis using assms by (auto simp add: openDiscord_def window_open_def wf_browser_def)
next
  case ClickInstagram
  then show ?thesis using assms by (auto simp add: openInstagram_def window_open_def wf_browser_def)
next
  case ClickWhatsApp
  then show ?thesis using assms by (auto simp add: handleWhatsAppClick_def whatsappUrl_page_link window_open_def wf_browser_def)
qed

text \<open>
  C6: any sequence of clicks on the page's buttons, from a well-formed
  document, throws nothing, keeps the document well-formed and the body unchanged, and
  opens exactly the windows and starts exactly the downloads of the clicked buttons, in
  click order: repeated clicks repeat their effect.
\<close>

theorem run_clicks_effects:
  "wf_browser b \<Longrightarrow>
   snd (run_clicks ua as b) = [] \<and> wf_browser (fst (run_clicks ua as b)) \<and>
   opened (fst (run_clicks ua as b)) = opened b @ concat (map (click_tabs ua) as) \<and>
   downloads (fst (run_clicks ua as b)) = downloads b @ concat (map click_downloads as) \<and>
   body (fst (run_clicks ua as b)) = body b"
proof (induction as arbitrary: b)
  case Nil
  then show ?case by simp
next
  case (Cons a as)
  obtain b' e where d: "dispatch ua a b = (b', e)" by (cases "dispatch ua a b") auto
  with Cons.prems have "e = None \<and> wf_browser b' \<and> opened b' = opened b @ click_tabs ua a \<and>
      downloads b' = downloads b @ click_downloads a \<and> body b' = body b"
    by (auto dest: dispatch_effect)
  with Cons.IH [of b'] d show ?case by (auto split: prod.splits)
qed

theorem run_clicks_effects_witness:
  "wf_browser (initial_browser []) \<and>
   snd (run_clicks (js ''iPhone'') [ClickATSResume, ClickWhatsApp, ClickATSResume] (initial_browser [])) = [] \<and>
   wf_browser (fst (run_clicks (js ''iPhone'') [ClickATSResume, ClickWhatsApp, ClickATSResume] (initial_browser []))) \<and>
   opened (fst (run_clicks (js ''iPhone'') [ClickATSResume, ClickWhatsApp, ClickATSResume] (initial_browser [])))
     = opened (initial_browser []) @ concat (map (click_tabs (js ''iPhone'')) [ClickATSResume, ClickWhatsApp, ClickATSResume]) \<and>
   downloads (fst (run_clicks (js ''iPhone'') [ClickATSResume, ClickWhatsApp, ClickATSResume] (initial_browser [])))
     = downloads (initial_browser []) @ concat (map click_downloads [ClickATSResume, ClickWhatsApp, ClickATSResume]) \<and>
   body (fst (run_clicks (js ''iPhone'') [ClickATSResume, ClickWhatsApp, ClickATSResume] (initial_browser []))) = body (initial_browser [])"
  using wf_initial_browser run_clicks_effects [OF wf_initial_browser,
      of "js ''iPhone''" "[ClickATSResume, ClickWhatsApp, ClickATSResume]"] by simp

end
