(* ===== verification/Page.thy ===== *)
theory Page
  imports Cards Handlers
begin

text \<open>
  The page composer \<open>Page\<close> of \<open>src/app/page.tsx\<close> (lines 185--537): its four content
  arrays, the JSX it returns (hero, about, projects, certificates,
  education and achievements, footer, floating buttons), and the card instances it mounts.
  Its content arrays are bundled in a record so that the composition can be stated for
  any content, the empty lists included; \<open>render_Page\<close> is the page with the arrays
  of the source. On top of the rendered tree, the session with the page is a step
  relation: the pointer enters and leaves the mounted cards, which are laid out side by
  side and never nested, and the user clicks any element of the current tree that has
  an \<open>onClick\<close> prop. React runs the handler and re-renders.
\<close>

record PageData =
  projects :: "ProjectItem list"
  certificates :: "CertificateItem list"
  education :: "EducationItem list"
  achievements :: "AchievementItem list"

definition page_data :: PageData where
  "page_data = \<lparr>projects = projectsData, certificates = certificatesData,
                education = educationData, achievements = achievementsData\<rparr>"

text \<open>
  The card instances the page mounts: the project card at each index of
  \<open>projectsData\<close>, and the one certificate, education and achievement card. A
  message of the page is a state update of one card instance, or a click on one of the
  page's own buttons.
\<close>

datatype card_id = ProjectSlot nat | CertificateSlot | EducationSlot | AchievementSlot

datatype page_msg = CardMsg card_id hover_msg | Click action

definition valid_card :: "PageData \<Rightarrow> card_id \<Rightarrow> bool" where
  "valid_card d c = (case c of ProjectSlot i \<Rightarrow> i < length (projects d) | _ \<Rightarrow> True)"

fun card_render :: "PageData \<Rightarrow> card_id \<Rightarrow> bool \<Rightarrow> hover_msg node" where
  "card_render d (ProjectSlot i) = ProjectCard (projects d ! i)"
| "card_render d CertificateSlot = CertificateCard (certificates d)"
| "card_render d EducationSlot = EducationCard (education d)"
| "card_render d AchievementSlot = AchievementCard (achievements d)"

text \<open>A mounted card: its tree rendered from its own state, its updates tagged with it.\<close>

definition mounted :: "PageData \<Rightarrow> (card_id \<Rightarrow> bool) \<Rightarrow> card_id \<Rightarrow> page_msg node" where
  "mounted d hov c = map_node (CardMsg c) (card_render d c (hov c))"

subsection \<open>The sections\<close>

definition copyright_sign :: string where
  "copyright_sign = [CHR 0xC2, CHR 0xA9]"

definition decimal_digit :: "nat \<Rightarrow> char" where
  "decimal_digit n = char_of (48 + n)"

text \<open>\<open>Number.prototype.toString()\<close> on a natural number: its decimal digits.\<close>

fun decimal :: "nat \<Rightarrow> string" where
  "decimal n = (if n < 10 then [decimal_digit n] else decimal (n div 10) @ [decimal_digit (n mod 10)])"

declare decimal.simps [simp del]

definition heroSection :: "page_msg node" where
  "heroSection =
     Elem ''section'' []
      [Elem ''div'' [] [],
       Elem ''motion.div'' [Initial [Opacity 0, OffsetY 20], Animate [Opacity 1, OffsetY 0], TransitionMs 800]
        [Elem ''h1'' [] [Text ''SHAIK MOHAMED FAHAD .T''],
         Elem ''h2'' [] [Text ''Python Developer''],
         Elem ''div'' []
          [Elem ''Link'' [Href ''https://github.com/i-am-smf'', Target ''_blank'']
            [Elem ''Button'' [Variant ''outline'', Size ''icon''] [Elem ''Github'' [] []]],
           Elem ''Link'' [Href ''https://www.linkedin.com/in/shaik-mohamed-fahad-826971178'', Target ''_blank'']
            [Elem ''Button'' [Variant ''outline'', Size ''icon''] [Elem ''Linkedin'' [] []]],
           Elem ''Button'' [Variant ''outline'', Size ''icon'', OnClick (Click ClickEmail), AriaLabel ''Send email'']
            [Elem ''Mail'' [] []]]]]"

definition aboutText :: string where
  "aboutText = ''I'm a Python Developer with 6 months of experience in software application development. I excel at solving problems and creating innovative solutions, such as developing APIs, automated bots, and secure communications systems. I'm quick to learn new technologies and thrive in fast-paced environments. Passionate about coding, I constantly seek to improve my skills and embrace new challenges.''"

definition aboutSection :: "page_msg node" where
  "aboutSection =
     Elem ''section'' []
      [Elem ''motion.div'' [Initial [Opacity 0], WhileInView [Opacity 1], TransitionMs 800]
        [Elem ''div'' []
          [Elem ''div'' []
            [Elem ''h2'' [] [Text ''About Me''],
             Elem ''p'' [] [Text aboutText],
             Elem ''div'' []
              [Elem ''Card'' []
                [Elem ''CardContent'' []
                  [Elem ''h3'' [] [Text ''Contact Information''],
                   Elem ''div'' []
                    [Elem ''div'' [] [Elem ''Phone'' [] [], Elem ''span'' [] [Text ''+91 73736 75313'']],
                     Elem ''div'' []
                      [Elem ''Mail'' [] [],
                       Elem ''Button'' [Variant ''link'', OnClick (Click ClickEmail)] [Text ''fahadguy8@gmail.com'']],
                     Elem ''div'' [] [Elem ''MapPin'' [] [], Elem ''span'' [] [Text ''Chennai, Tamil Nadu'']]]]],
               Elem ''Card'' []
                [Elem ''CardContent'' []
                  [Elem ''h3'' [] [Text ''Skills''],
                   Elem ''div'' []
                    [Elem ''Badge'' [] [Text ''Python''], Elem ''Badge'' [] [Text ''Git''],
                     Elem ''Badge'' [] [Text ''GitHub''], Elem ''Badge'' [] [Text ''SQL''],
                     Elem ''Badge'' [] [Text ''AWS'']]]]],
             Elem ''div'' []
              [Elem ''Button'' [OnClick (Click ClickATSResume)] [Elem ''Download'' [] [], Text ''ATS Resume''],
               Elem ''Button'' [OnClick (Click ClickCreativeResume), Variant ''outline'']
                [Elem ''Download'' [] [], Text ''Creative Resume'']]],
           Elem ''div'' []
            [Elem ''div'' []
              [Elem ''Image'' [Src ''https://hebbkx1anhila5yf.public.blob.vercel-storage.com/IMG_20230317_123617.jpg-PUBHZyiKZyhhJvIQ1qbsKYIqbGHpkz.jpeg'',
                               Alt ''Profile photo in a tea plantation''] []],
             Elem ''div'' [] []]]]]"

text \<open>A section body that fades in when scrolled into view (lines 435--440 and the like).\<close>

definition inViewSection :: "page_msg node list \<Rightarrow> page_msg node" where
  "inViewSection children =
     Elem ''section'' [] [Elem ''motion.div'' [Initial [Opacity 0], WhileInView [Opacity 1], TransitionMs 800] children]"

definition projectsSection :: "PageData \<Rightarrow> (card_id \<Rightarrow> bool) \<Rightarrow> page_msg node" where
  "projectsSection d hov = inViewSection
     [Elem ''h2'' [] [Text ''Projects''],
      Elem ''div'' []
        [Arr (map (\<lambda>(index, project). Elem ''ProjectCard'' [Key index] [mounted d hov (ProjectSlot index)])
          (enumerate 0 (projects d)))]]"

definition certificatesSection :: "PageData \<Rightarrow> (card_id \<Rightarrow> bool) \<Rightarrow> page_msg node" where
  "certificatesSection d hov = inViewSection
     [Elem ''div'' []
       [Elem ''div'' []
         [Elem ''h2'' [] [Text ''Certificates''],
          Elem ''CertificateCard'' [] [mounted d hov CertificateSlot]]]]"

definition eduAchSection :: "PageData \<Rightarrow> (card_id \<Rightarrow> bool) \<Rightarrow> page_msg node" where
  "eduAchSection d hov = inViewSection
     [Elem ''div'' []
       [Elem ''div'' [] [Elem ''h2'' [] [Text ''Education''], Elem ''EducationCard'' [] [mounted d hov EducationSlot]],
        Elem ''div'' [] [Elem ''h2'' [] [Text ''Achievements''], Elem ''AchievementCard'' [] [mounted d hov AchievementSlot]]]]"

definition footerSection :: "nat \<Rightarrow> page_msg node" where
  "footerSection year =
     Elem ''footer'' []
      [Elem ''div'' []
        [Elem ''div'' []
          [Elem ''p'' [] [Text (copyright_sign @ '' ''), Text (decimal year), Text '' Shaik Mohamed Fahad. All rights reserved.''],
           Elem ''p'' []
            [Text ''Developed and maintained by '', Elem ''span'' [] [Text ''i_am_smf_.py''], Text '' '',
             Elem ''span'' [] [Text ''using''], Text '' '',
             Elem ''Link'' [Href ''https://v0.dev'', Target ''_blank'', Rel ''noopener noreferrer''] [Text ''v0.dev'']]]]]"

text \<open>
  The floating buttons. The Discord button's icon is \<open>lucide-react\<close>'s \<open>DiscIcon\<close>,
  imported under the name \<open>Discord\<close> (line 17).
\<close>

definition floatingButtons :: "page_msg node" where
  "floatingButtons =
     Elem ''div'' []
      [Elem ''Button'' [OnClick (Click ClickDiscord), AriaLabel ''Join Discord Server''] [Elem ''DiscIcon'' [] []],
       Elem ''Button'' [OnClick (Click ClickInstagram), AriaLabel ''Follow on Instagram''] [Elem ''Instagram'' [] []],
       Elem ''Button'' [OnClick (Click ClickWhatsApp), AriaLabel ''Contact on WhatsApp''] [Elem ''MessageCircle'' [] []]]"

text \<open>The tree \<open>Page\<close> returns, for given content, card states and current year.\<close>

definition page_view :: "PageData \<Rightarrow> (card_id \<Rightarrow> bool) \<Rightarrow> nat \<Rightarrow> page_msg node" where
  "page_view d hov year =
     Elem ''div'' []
      [heroSection, aboutSection, projectsSection d hov, certificatesSection d hov, eduAchSection d hov,
       footerSection year, floatingButtons]"

definition render_Page :: "(card_id \<Rightarrow> bool) \<Rightarrow> nat \<Rightarrow> page_msg node" where
  "render_Page hov year = page_view page_data hov year"

subsection \<open>A session with the page\<close>

text \<open>
  The state of a session: each mounted card's \<open>isHovered\<close>, the card the pointer is
  over, the browser, and the exceptions React has reported from handlers.
\<close>

record page_state =
  hovered :: "card_id \<Rightarrow> bool"
  pointer :: "card_id option"
  browser :: Browser
  errors :: "exception list"

definition page_init :: "js_string \<Rightarrow> page_state" where
  "page_init url = \<lparr>hovered = (\<lambda>c. False), pointer = None, browser = initial_browser url, errors = []\<rparr>"

text \<open>Running one handler value: a card's state update, or a button's handler.\<close>

fun page_apply :: "js_string \<Rightarrow> page_msg \<Rightarrow> page_state \<Rightarrow> page_state" where
  "page_apply ua (CardMsg c m) s = s\<lparr>hovered := (hovered s)(c := setIsHovered m (hovered s c))\<rparr>"
| "page_apply ua (Click a) s =
     (case dispatch ua a (browser s) of
        (b, e) \<Rightarrow> s\<lparr>browser := b, errors := errors s @ (case e of None \<Rightarrow> [] | Some x \<Rightarrow> [x])\<rparr>)"

text \<open>
  The steps of a session for a user agent \<open>ua\<close> and a year: a pointer move, where the
  pointer enters a card (firing \<open>mouseenter\<close> at the card's root element) when it is
  over none or leaves the card it is over (\<open>mouseleave\<close>), or a click on an element of
  the current tree. Moving from one card to another is a leave followed by an enter.
\<close>

inductive pointer_step :: "js_string \<Rightarrow> page_state \<Rightarrow> page_state \<Rightarrow> bool" where
  enter: "pointer s = None \<Longrightarrow> valid_card page_data c \<Longrightarrow>
    pointer_step ua s ((fold (page_apply ua) (fire MouseEnter (mounted page_data (hovered s) c)) s)\<lparr>pointer := Some c\<rparr>)"
| leave: "pointer s = Some c \<Longrightarrow>
    pointer_step ua s ((fold (page_apply ua) (fire MouseLeave (mounted page_data (hovered s) c)) s)\<lparr>pointer := None\<rparr>)"

inductive page_step :: "js_string \<Rightarrow> nat \<Rightarrow> page_state \<Rightarrow> page_state \<Rightarrow> bool" where
  move: "pointer_step ua s s' \<Longrightarrow> page_step ua year s s'"
| press: "h \<in> set (all_handlers attr_click (render_Page (hovered s) year)) \<Longrightarrow>
    page_step ua year s (page_apply ua h s)"

inductive reachable :: "js_string \<Rightarrow> nat \<Rightarrow> js_string \<Rightarrow> page_state \<Rightarrow> bool" where
  init: "reachable ua year url (page_init url)"
| step: "reachable ua year url s \<Longrightarrow> page_step ua year s s' \<Longrightarrow> reachable ua year url s'"

inductive_cases page_step_cases: "page_step ua year s s'"

inductive_cases pointer_step_cases: "pointer_step ua s s'"

definition page_inv :: "page_state \<Rightarrow> bool" where
  "page_inv s \<longleftrightarrow> hovered s = (\<lambda>c. pointer s = Some c) \<and> wf_browser (browser s) \<and> errors s = []"

subsection \<open>Reading the page\<close>

text \<open>Only the page's own sections have click handlers: the mounted cards have none.\<close>

lemma page_click_handlers_sections:
  "all_handlers attr_click (page_view d hov year) =
     all_handlers attr_click heroSection @ all_handlers attr_click aboutSection @ all_handlers attr_click floatingButtons"
  by (simp add: page_view_def projectsSection_def certificatesSection_def eduAchSection_def footerSection_def
      inViewSection_def mounted_def all_handlers_click_map_node split_def)

lemma page_click_is_action:
  "h \<in> set (all_handlers attr_click (page_view d hov year)) \<Longrightarrow> \<exists>a. h = Click a"
  by (auto simp add: page_click_handlers_sections heroSection_def aboutSection_def floatingButtons_def)

text \<open>
  C5: every clickable element of the page, for any content and card states, is
  one of the page's own buttons, and they are, in document order: the hero's mail
  button, the contact card's mail link, the two resume buttons, and the Discord,
  Instagram and WhatsApp buttons. The cards have no click handlers.
\<close>

theorem page_click_handlers:
  "all_handlers attr_click (page_view d hov year) =
     map Click [ClickEmail, ClickEmail, ClickATSResume, ClickCreativeResume, ClickDiscord, ClickInstagram, ClickWhatsApp]"
  by (simp add: page_click_handlers_sections heroSection_def aboutSection_def floatingButtons_def)

text \<open>
  C15: the page satisfies React's key rule for any content and card states: every
  element of an array child (the project cards of the projects section, the rows of
  the list cards) has a key, the project cards carry the distinct keys
  \<open>0, 1, ...\<close>, and no siblings share a key.
\<close>

theorem page_wf_keys: "wf_keys (page_view d hov year)"
  by (simp add: page_view_def heroSection_def aboutSection_def projectsSection_def certificatesSection_def
      eduAchSection_def footerSection_def floatingButtons_def inViewSection_def mounted_def
      keys_rows list_all_iff split: prod.splits option.splits)


text \<open>
  C19: the links of the page, in document order: the hero's GitHub and LinkedIn
  links open in a new context without a \<open>rel\<close>, the three project links and the
  footer's link carry \<open>rel="noopener noreferrer"\<close>, and the cards' calls to action
  are the same-context routes \<open>/certificates\<close>, \<open>/education\<close> and \<open>/achievements\<close>.
\<close>

theorem page_links:
  "links (render_Page hov year) =
     [(Some ''https://github.com/i-am-smf'', Some ''_blank'', None),
      (Some ''https://www.linkedin.com/in/shaik-mohamed-fahad-826971178'', Some ''_blank'', None),
      (Some ''https://github.com/i-am-smf/afk-monitering-sytem'', Some ''_blank'', Some ''noopener noreferrer''),
      (Some ''https://github.com/i-am-smf/Secure-Chat-using-Blockchain'', Some ''_blank'', Some ''noopener noreferrer''),
      (Some ''https://github.com/infinity-developers/Infinity-Developer-Discord-Bot'', Some ''_blank'', Some ''noopener noreferrer''),
      (Some ''/certificates'', None, None), (Some ''/education'', None, None), (Some ''/achievements'', None, None),
      (Some ''https://v0.dev'', Some ''_blank'', Some ''noopener noreferrer'')]"
  by (simp add: render_Page_def page_data_def page_view_def heroSection_def aboutSection_def projectsSection_def
      certificatesSection_def eduAchSection_def footerSection_def floatingButtons_def inViewSection_def
      mounted_def projectsData_def ProjectCard_def EducationCard_def AchievementCard_def CertificateCard_def
      hoverCard_def detailPanel_def o_def split_def)

text \<open>
  C13: for any content, the empty lists included, and any card states, the page shows
  every section heading, the heading and call-to-action of each list card, and links
  to the three dedicated pages.
\<close>

theorem page_sections_any_content:
  "set [''Projects'', ''Certificates'', ''View Certificates'', ''Go to Certificates Page'',
        ''Education'', ''View Education Details'', ''Go to Education Page'',
        ''Achievements'', ''View Achievements'', ''Go to Achievements Page'']
     \<subseteq> set (visible_texts (page_view d hov year)) \<and>
   set [(Some ''/certificates'', None, None), (Some ''/education'', None, None), (Some ''/achievements'', None, None)]
     \<subseteq> set (links (page_view d hov year))"
  by (simp add: page_view_def heroSection_def aboutSection_def projectsSection_def certificatesSection_def
      eduAchSection_def footerSection_def floatingButtons_def inViewSection_def mounted_def
      EducationCard_def AchievementCard_def CertificateCard_def hoverCard_def)

subsection \<open>A session with the page\<close>

lemma fire_mounted [simp]:
  "fire ev (mounted d hov c) = [CardMsg c (SetHovered (ev = MouseEnter))]"
  by (cases c; cases ev) (simp_all add: mounted_def fire_def ProjectCard_def EducationCard_def
      AchievementCard_def CertificateCard_def hoverCard_def List.map_filter_simps)

lemma page_inv_init: "page_inv (page_init url)"
  by (simp add: page_inv_def page_init_def wf_initial_browser)

lemma page_inv_pointer_step:
  assumes "pointer_step ua s s'" "page_inv s"
  shows "page_inv s'"
  using assms by (cases rule: pointer_step.cases) (auto simp add: page_inv_def fun_eq_iff)

lemma page_inv_step:
  assumes "page_step ua year s s'" "page_inv s"
  shows "page_inv s'"
  using assms
proof (cases rule: page_step.cases)
  case move
  then show ?thesis using assms(2) by (rule page_inv_pointer_step)
next
  case (press h)
  then obtain a where h: "h = Click a"
    using page_click_is_action [of h page_data "hovered s" year] by (auto simp add: render_Page_def)
  obtain b e where d: "dispatch ua a (browser s) = (b, e)" by (cases "dispatch ua a (browser s)") auto
  have "e = None \<and> wf_browser b" using dispatch_effect [of "browser s" ua a b e] d assms(2)
    by (simp add: page_inv_def)
  then show ?thesis using press h d assms(2) by (simp add: page_inv_def)
qed

lemma reachable_page_inv: "reachable ua year url s \<Longrightarrow> page_inv s"
  by (induction rule: reachable.induct) (auto intro: page_inv_init page_inv_step)

lemma enter_step:
  "pointer s = None \<Longrightarrow> valid_card page_data c \<Longrightarrow>
   pointer_step ua s (s\<lparr>hovered := (hovered s)(c := True), pointer := Some c\<rparr>)"
  using pointer_step.enter [of s c ua] by simp

lemma leave_step:
  "pointer s = Some c \<Longrightarrow> pointer_step ua s (s\<lparr>hovered := (hovered s)(c := False), pointer := None\<rparr>)"
  using pointer_step.leave [of s c ua] by simp

lemma reachable_move:
  "reachable ua year url s \<Longrightarrow> pointer_step ua s s' \<Longrightarrow> reachable ua year url s'"
  by (blast intro: reachable.step page_step.move)

lemma reachable_enter_project1:
  "reachable ua year url ((page_init url)\<lparr>hovered := (\<lambda>c. False)(ProjectSlot 1 := True), pointer := Some (ProjectSlot 1)\<rparr>)"
proof -
  have "valid_card page_data (ProjectSlot 1)"
    by (simp add: valid_card_def page_data_def projectsData_def)
  then have "page_step ua year (page_init url)
      ((page_init url)\<lparr>hovered := (hovered (page_init url))(ProjectSlot 1 := True), pointer := Some (ProjectSlot 1)\<rparr>)"
    using enter_step [of "page_init url" "ProjectSlot 1" ua] by (simp add: page_init_def page_step.move)
  then show ?thesis using reachable.init [of ua year url] by (simp add: page_init_def reachable.step)
qed

text \<open>
  C2: in every state of a session, reached by any sequence of pointer moves and
  clicks, a card is expanded exactly when the pointer is over it, the document is
  well-formed, and no handler has thrown.
\<close>

theorem page_session_invariant:
  "reachable ua year url s \<Longrightarrow>
   hovered s = (\<lambda>c. pointer s = Some c) \<and> wf_browser (browser s) \<and> errors s = []"
  using reachable_page_inv [of ua year url s] by (simp add: page_inv_def)

theorem page_session_invariant_witness:
  "reachable (js ''iPhone'') 2026 []
     ((page_init [])\<lparr>hovered := (\<lambda>c. False)(ProjectSlot 1 := True), pointer := Some (ProjectSlot 1)\<rparr>) \<and>
   hovered ((page_init [])\<lparr>hovered := (\<lambda>c. False)(ProjectSlot 1 := True), pointer := Some (ProjectSlot 1)\<rparr>) =
     (\<lambda>c. pointer ((page_init [])\<lparr>hovered := (\<lambda>c. False)(ProjectSlot 1 := True), pointer := Some (ProjectSlot 1)\<rparr>) = Some c) \<and>
   wf_browser (browser ((page_init [])\<lparr>hovered := (\<lambda>c. False)(ProjectSlot 1 := True), pointer := Some (ProjectSlot 1)\<rparr>)) \<and>
   errors ((page_init [])\<lparr>hovered := (\<lambda>c. False)(ProjectSlot 1 := True), pointer := Some (ProjectSlot 1)\<rparr>) = []"
  using reachable_enter_project1 page_session_invariant [OF reachable_enter_project1] by simp

text \<open>
  C14: from every state of a session, any card of the page can be expanded, alone,
  by at most two pointer moves and no click; the state reached is a state of the
  session, with the browser and the reported exceptions unchanged.
\<close>

theorem any_card_can_expand:
  assumes "reachable ua year url s" "valid_card page_data c"
  shows "\<exists>n s'. n \<le> 2 \<and> (pointer_step ua ^^ n) s s' \<and> reachable ua year url s' \<and>
           hovered s' = (\<lambda>c'. c' = c) \<and> browser s' = browser s \<and> errors s' = errors s"
proof (cases "pointer s")
  case None
  define s1 where "s1 = s\<lparr>hovered := (hovered s)(c := True), pointer := Some c\<rparr>"
  have h: "hovered s = (\<lambda>c. False)" using reachable_page_inv [OF assms(1)] None by (simp add: page_inv_def)
  have 1: "pointer_step ua s s1" using enter_step [OF None assms(2)] by (simp add: s1_def)
  then have "(pointer_step ua ^^ 1) s s1" by (metis relpowp_1)
  moreover have "reachable ua year url s1" using assms(1) 1 by (rule reachable_move)
  moreover have "hovered s1 = (\<lambda>c'. c' = c) \<and> browser s1 = browser s \<and> errors s1 = errors s"
    using h by (simp add: s1_def fun_eq_iff)
  ultimately show ?thesis by (intro exI [of _ 1] exI [of _ s1]) simp
next
  case (Some c0)
  define s1 where "s1 = s\<lparr>hovered := (hovered s)(c0 := False), pointer := None\<rparr>"
  define s2 where "s2 = s1\<lparr>hovered := (hovered s1)(c := True), pointer := Some c\<rparr>"
  have h: "hovered s = (\<lambda>c. c = c0)" using reachable_page_inv [OF assms(1)] Some
    by (auto simp add: page_inv_def)
  have 1: "pointer_step ua s s1" using leave_step [OF Some] by (simp add: s1_def)
  have 2: "pointer_step ua s1 s2"
    using enter_step [of s1 c] assms(2) by (simp add: s1_def s2_def)
  have "(pointer_step ua ^^ 1) s1 s2" using 2 by (metis relpowp_1)
  then have "(pointer_step ua ^^ 2) s s2"
    using 1 relpowp_Suc_I2 [of "pointer_step ua" s s1 1 s2] by (simp add: numeral_2_eq_2)
  moreover have "reachable ua year url s2" using reachable_move [OF reachable_move [OF assms(1) 1] 2] .
  moreover have "hovered s2 = (\<lambda>c'. c' = c) \<and> browser s2 = browser s \<and> errors s2 = errors s"
    using h by (simp add: s1_def s2_def fun_eq_iff)
  ultimately show ?thesis by (intro exI [of _ 2] exI [of _ s2]) simp
qed

theorem any_card_can_expand_witness:
  "reachable (js ''iPhone'') 2026 []
     ((page_init [])\<lparr>hovered := (\<lambda>c. False)(ProjectSlot 1 := True), pointer := Some (ProjectSlot 1)\<rparr>) \<and>
   valid_card page_data EducationSlot \<and>
   (\<exists>n s'. n \<le> 2 \<and> (pointer_step (js ''iPhone'') ^^ n)
          ((page_init [])\<lparr>hovered := (\<lambda>c. False)(ProjectSlot 1 := True), pointer := Some (ProjectSlot 1)\<rparr>) s' \<and>
        reachable (js ''iPhone'') 2026 [] s' \<and>
        hovered s' = (\<lambda>c'. c' = EducationSlot) \<and> browser s' = initial_browser [] \<and> errors s' = [])"
proof -
  have v: "valid_card page_data EducationSlot" by (simp add: valid_card_def)
  show ?thesis using reachable_enter_project1 v any_card_can_expand [OF reachable_enter_project1 v]
    by (simp add: page_init_def)
qed

end
