(* ===== verification/Spec2Isabelle.thy ===== *)
theory Spec2Isabelle
  imports Page
begin

text \<open>
  \<^bold>\<open>A verification development of the portfolio page \<open>src/app/page.tsx\<close>.\<close>

  The repository is one React client component (Next.js). It has four card components
  (\<open>ProjectCard\<close>, \<open>EducationCard\<close>, \<open>AchievementCard\<close>, \<open>CertificateCard\<close>,
  lines 52--183), each holding one \<open>useState(false)\<close> flag set by its
  \<open>onMouseEnter\<close>/\<open>onMouseLeave\<close> closures. The page component \<open>Page\<close> (lines
  185--537) binds four literal content arrays and the WhatsApp handler, and returns the
  page: hero, about, projects, certificates, education and achievements, footer and
  floating buttons. It mounts the cards with slices of the content, and its buttons' \<open>onClick\<close>
  handlers act on the browser (\<open>window.open\<close>, \<open>window.location.href\<close>, a temporary
  download anchor). The WhatsApp handler calls two ECMAScript built-ins, \<open>RegExp.prototype.test\<close>
  on \<open>navigator.userAgent\<close> and \<open>encodeURIComponent\<close>.

  \<^bold>\<open>Theories, bottom up.\<close>
  \<^item> \<open>Prelude\<close>: JavaScript strings as lists of UTF-16 code units (\<open>16 word list\<close>,
    literals through \<open>js\<close>), the result type \<open>error + 'a\<close> with \<open>res_bind\<close>, and the
    list, word and \<open>List.map_filter\<close> lemmas the components share.
  \<^item> \<open>Content\<close>: the interfaces \<open>ProjectItem\<close> \<open>EducationItem\<close> \<open>AchievementItem\<close>
    \<open>CertificateItem\<close> as records (optional fields as \<open>option\<close>) and the four arrays of
    \<open>Page\<close> (\<open>projectsData\<close> ... \<open>certificatesData\<close>).
  \<^item> \<open>Uri\<close>: \<open>encodeURIComponent\<close>/\<open>decodeURIComponent\<close> after ECMA-262 (Encode, Decode,
    CodePointAt, UTF-8 octets), with the round trip, the error condition, the output
    alphabet and the length bounds. \<open>UserAgent\<close>: \<open>RegExp.prototype.test\<close> for the
    literal disjunction with the \<open>i\<close> flag (RegExpBuiltinExec's \<open>lastIndex\<close> loop,
    Canonicalize), and the device check \<open>isMobile\<close> (line 283).
  \<^item> \<open>Browser\<close>: the part of the browser the handlers touch, from the HTML and DOM
    standards. \<open>Handlers\<close>: every \<open>onClick\<close> of the page
    (\<open>handleWhatsAppClick\<close> lines 278--291, the mail, resume and social buttons) as
    explicit state passing on \<open>Browser\<close>, with exceptions as values
    (\<open>outcome = Browser \<times> exception option\<close>: React reports a thrown handler exception
    and keeps the effects made before it); \<open>dispatch\<close> is the table of the page's
    \<open>onClick\<close> props, and \<open>run_clicks\<close> runs a sequence of clicks.
  \<^item> \<open>Markup\<close>: the JSX element tree \<open>'h node\<close>, whose event props hold handler values of a
    type chosen by the renderer. An array child (\<open>{items.map(...)}\<close>) is the constructor
    \<open>Arr\<close>, so that React's key rule (a key on every element of an array) can be
    stated. Also what is read off a tree: text, the text visible once the animations
    settle (\<open>whileInView\<close> sections count as scrolled into view), keys, handlers and links.
  \<^item> \<open>Cards\<close>: each card as its render function from props and \<open>isHovered\<close> to a tree;
    \<open>card_event\<close> fires a pointer event by reading the handler props of the rendered
    root and applying \<open>setIsHovered\<close>.
  \<^item> \<open>Page\<close>: the sections and \<open>page_view\<close> for any content (\<open>render_Page\<close> with the
    source's arrays), the mounted card instances \<open>card_id\<close>, and a session as the
    inductive relation \<open>page_step\<close>: a pointer move \<open>pointer_step\<close> (the pointer
    enters a card when over none, or leaves the card it is over), or a click on any
    element of the current tree with an \<open>onClick\<close>;
    \<open>reachable\<close> is the set of session states from \<open>page_init\<close>.
  \<^item> This theory: the header and the property spanning the page and its handlers.

  \<^bold>\<open>What is proved.\<close> The handlers' effects (the WhatsApp link on both device
  classes, the downloads, the click sequences) and the WhatsApp link's round trip, error
  condition, query safety and the length of its text parameter per code unit of the
  message; the device check as a substring test.
  Each card's state after any pointer events is the last event, and what a card shows
  collapsed and expanded. On the page: which elements are clickable and which action each runs,
  the key rule, the links, the headings for any content. In a session, by rule induction, a card
  is expanded exactly when the pointer is over it (so at most one is), the document stays
  well-formed and no handler throws; every card can be expanded alone from every state by
  at most two pointer moves (a path of \<open>pointer_step ^^ n\<close>, \<open>n \<le> 2\<close>). The findings in the manifest come from these theorems.

  \<^bold>\<open>Bounds and termination.\<close> No fuel is used. Every loop of the modelled code
  is total: Encode and Decode are \<open>function\<close>s terminating by the measure of the
  unread input, RegExpBuiltinExec by \<open>length S + 1 - lastIndex\<close>; the tree functions are
  structural. Code units are \<open>16 word\<close>; the bounds that matter (code points below
  \<open>0x110000\<close>, octets below 256) are hypotheses or lemmas of \<open>Uri\<close>.

  \<^bold>\<open>Not modelled.\<close> CSS classes and responsive layout (no logical effect);
  the internals of the libraries the page only calls (framer-motion's timing, the
  layout of \<open>next/image\<close>, \<open>next/link\<close>'s client-side routing, the \<open>lucide-react\<close>
  icons and the \<open>@/components/ui\<close> wrappers), which appear as tags of the tree with
  the props that matter (\<open>href\<close>, \<open>target\<close>, \<open>rel\<close>, \<open>variant\<close>, \<open>size\<close>, animation
  targets). Relative URLs are kept unresolved. The year of \<open>new Date()\<close> is a
  parameter. React's batching and scheduling are not modelled: every update is a
  constant, so the state after a batch is that of its last update. The regular
  expression's Canonicalize folds ASCII letters only; ECMA-262 also upper-cases other
  code units, but never onto ASCII, so the test of the page's ASCII alternatives gives
  the same result. Navigating to \<open>mailto:\<close> is recorded as the new location; the
  browser's hand-off to a mail client is not modelled.
\<close>

text \<open>
  C16: the contact details the page shows are the ones its handlers use: the page shows
  a phone number starting with \<open>+\<close> whose digits are the \<open>phoneNumber\<close> the WhatsApp
  handler puts into its link, and an e-mail address to which both mail buttons
  navigate with \<open>mailto:\<close>, for any card states and year.
\<close>

theorem contact_details_match_handlers:
  "(\<exists>t. t \<in> set (visible_texts (render_Page hov year)) \<and> hd t = CHR ''+'' \<and>
        js (filter (\<lambda>c. c \<in> set ''0123456789'') t) = phoneNumber) \<and>
   (\<exists>t. t \<in> set (visible_texts (render_Page hov year)) \<and>
        location_href (fst (dispatch ua ClickEmail b)) = js (''mailto:'' @ t))"
proof -
  have v: "{''+91 73736 75313'', ''fahadguy8@gmail.com''} \<subseteq> set (visible_texts (render_Page hov year))"
    by (simp add: render_Page_def page_view_def aboutSection_def)
  have "js (filter (\<lambda>c. c \<in> set ''0123456789'') ''+91 73736 75313'') = phoneNumber"
    by (simp add: phoneNumber_def)
  moreover have "location_href (fst (dispatch ua ClickEmail b)) = js (''mailto:'' @ ''fahadguy8@gmail.com'')"
    by (simp add: mailtoClick_def set_location_def)
  ultimately show ?thesis using v by auto
qed

end
